theory Spec2Isabelle
  imports Complex_Main "HOL-Library.AList" "HOL-Library.Multiset"
begin

section \<open>Strings and numbers\<close>

text \<open>
  \<open>QString\<close> is modelled as \<open>string\<close>. \<open>QString::number\<close> is only ever applied to the
  loop counters \<open>j + 1\<close> and \<open>i\<close> of the folio-sequential code, which start at 1 and count
  upwards, so the model takes a natural number and writes it in decimal.
\<close>

definition digit :: "nat \<Rightarrow> char" where
  "digit d = ''0123456789'' ! d"

function number :: "nat \<Rightarrow> string" where
  "number n = (if n < 10 then [digit n] else number (n div 10) @ [digit (n mod 10)])"
  by pat_completeness auto
termination
  by (relation "measure id") auto

declare number.simps [simp del]

section \<open>The XML document model\<close>

text \<open>
  A DOM node is an element (tag name, attributes, child nodes) or some other node
  (text, comment). The attributes of an element form a map from names to values:
  \<open>setAttribute\<close> replaces the value of an attribute that exists already.
\<close>

datatype QDomNode =
    QDomElement string "(string \<times> string) list" "QDomNode list"
  | QDomCharacterData string

fun isElement :: "QDomNode \<Rightarrow> bool" where
  "isElement (QDomElement t as cs) = True"
| "isElement (QDomCharacterData s) = False"

text \<open>The tag name of a null element (a node that is not an element) is empty.\<close>

fun tagName :: "QDomNode \<Rightarrow> string" where
  "tagName (QDomElement t as cs) = t"
| "tagName (QDomCharacterData s) = []"

fun attributeMap :: "QDomNode \<Rightarrow> (string \<times> string) list" where
  "attributeMap (QDomElement t as cs) = as"
| "attributeMap (QDomCharacterData s) = []"

fun childNodes :: "QDomNode \<Rightarrow> QDomNode list" where
  "childNodes (QDomElement t as cs) = cs"
| "childNodes (QDomCharacterData s) = []"

definition createElement :: "string \<Rightarrow> QDomNode" where
  "createElement t = QDomElement t [] []"

fun setAttribute :: "string \<Rightarrow> string \<Rightarrow> QDomNode \<Rightarrow> QDomNode" where
  "setAttribute name v (QDomElement t as cs) = QDomElement t (AList.update name v as) cs"
| "setAttribute name v (QDomCharacterData s) = QDomCharacterData s"

definition hasAttribute :: "QDomNode \<Rightarrow> string \<Rightarrow> bool" where
  "hasAttribute e name = (map_of (attributeMap e) name \<noteq> None)"

text \<open>\<open>attributeOr e name d\<close> is \<open>e.attribute(name, d)\<close>; the default of the default is the
  empty string.\<close>

definition attributeOr :: "QDomNode \<Rightarrow> string \<Rightarrow> string \<Rightarrow> string" where
  "attributeOr e name d = (case map_of (attributeMap e) name of Some v \<Rightarrow> v | None \<Rightarrow> d)"

definition attribute :: "QDomNode \<Rightarrow> string \<Rightarrow> string" where
  "attribute e name = attributeOr e name []"

fun appendChild :: "QDomNode \<Rightarrow> QDomNode \<Rightarrow> QDomNode" where
  "appendChild (QDomElement t as cs) c = QDomElement t as (cs @ [c])"
| "appendChild (QDomCharacterData s) c = QDomCharacterData s"

text \<open>
  The elements visited by \<open>for (e = n.firstChildElement(tag); !e.isNull();
  e = e.nextSiblingElement(tag))\<close>: the child elements of \<open>n\<close> with that tag, in document
  order; an empty tag selects every child element.
\<close>

definition childElements :: "string \<Rightarrow> QDomNode \<Rightarrow> QDomNode list" where
  "childElements tag n =
     filter (\<lambda>c. isElement c \<and> (tag = [] \<or> tagName c = tag)) (childNodes n)"

text \<open>
  Modelled from the spec: \<open>QET::findInDomElement\<close> is not among the sources at hand. From
  its name and its call sites (\<open>elements\<close>/\<open>element\<close>, \<open>inputs\<close>/\<open>input\<close>, ...) it returns, in
  document order, the child elements tagged \<open>children\<close> of the child elements of \<open>e\<close>
  tagged \<open>parent\<close>.
\<close>

definition findInDomElement :: "QDomNode \<Rightarrow> string \<Rightarrow> string \<Rightarrow> QDomNode list" where
  "findInDomElement e parent children =
     concat (map (\<lambda>p. filter (\<lambda>c. isElement c \<and> tagName c = children) (childNodes p))
                 (filter (\<lambda>p. isElement p \<and> tagName p = parent) (childNodes e)))"

section \<open>Folio sequentials\<close>

text \<open>
  A \<open>QHash<QString, QStringList>\<close> is an association list with one entry per key, in the
  order in which the hash is iterated; \<open>insert\<close> replaces the value of a key that is
  present.
\<close>

type_synonym folio_hash = "(string \<times> string list) list"

text \<open>The inner loop of \<open>folioSequentialsToXml\<close>, from index \<open>j\<close> on.\<close>

fun setSeqAttributes :: "string \<Rightarrow> string list \<Rightarrow> nat \<Rightarrow> QDomNode \<Rightarrow> QDomNode" where
  "setSeqAttributes seq_type [] j folioseq = folioseq"
| "setSeqAttributes seq_type (v # vs) j folioseq =
     setSeqAttributes seq_type vs (Suc j) (setAttribute (seq_type @ number (Suc j)) v folioseq)"

definition folioseqElement :: "string \<Rightarrow> string \<Rightarrow> string \<times> string list \<Rightarrow> QDomNode" where
  "folioseqElement seq_type type kv =
     setSeqAttributes seq_type (snd kv) 0 (setAttribute ''title'' (fst kv) (createElement type))"

definition folioSequentialsToXml ::
  "folio_hash \<Rightarrow> QDomNode \<Rightarrow> string \<Rightarrow> string \<Rightarrow> QDomNode" where
  "folioSequentialsToXml hash domElement seq_type type =
     fold (\<lambda>kv dom. appendChild dom (folioseqElement seq_type type kv)) hash domElement"

lemma digit_inj: "a < 10 \<Longrightarrow> b < 10 \<Longrightarrow> digit a = digit b \<Longrightarrow> a = b"
  unfolding digit_def
  by (auto simp: less_Suc_eq numeral_eq_Suc)

lemma number_not_Nil: "number n \<noteq> []"
  by (subst number.simps) simp

lemma number_inj: "number n = number m \<Longrightarrow> n = m"
proof (induction n arbitrary: m rule: number.induct)
  case (1 n)
  show ?case
  proof (cases "n < 10")
    case True
    then have n: "number n = [digit n]" by (subst number.simps) simp
    show ?thesis
    proof (cases "m < 10")
      case m: True
      then have "number m = [digit m]" by (subst number.simps) simp
      with n "1.prems" True m show ?thesis by (auto dest: digit_inj)
    next
      case False
      then have "number m = number (m div 10) @ [digit (m mod 10)]" by (subst number.simps) simp
      with n "1.prems" number_not_Nil [of "m div 10"] show ?thesis by auto
    qed
  next
    case False
    then have n: "number n = number (n div 10) @ [digit (n mod 10)]" by (subst number.simps) simp
    show ?thesis
    proof (cases "m < 10")
      case True
      then have "number m = [digit m]" by (subst number.simps) simp
      with n "1.prems" number_not_Nil [of "n div 10"] show ?thesis by auto
    next
      case m: False
      then have "number m = number (m div 10) @ [digit (m mod 10)]" by (subst number.simps) simp
      with n "1.prems" have e: "number (n div 10) = number (m div 10)" "digit (n mod 10) = digit (m mod 10)"
        by simp_all
      from "1.IH" [OF False e(1)] have "n div 10 = m div 10" .
      moreover from e(2) have "n mod 10 = m mod 10" by (auto dest!: digit_inj [rotated 2])
      ultimately show ?thesis by (metis div_mult_mod_eq)
    qed
  qed
qed

lemma finite_numbered_attributes: "finite {k. hasAttribute e (seq @ number k)}"
proof -
  have "inj (\<lambda>k. seq @ number k)"
    by (auto simp: inj_on_def dest: number_inj)
  then have "finite ((\<lambda>k. seq @ number k) -` (fst ` set (attributeMap e)))"
    by (intro finite_vimageI) simp_all
  moreover have "{k. hasAttribute e (seq @ number k)} \<subseteq> (\<lambda>k. seq @ number k) -` (fst ` set (attributeMap e))"
    by (auto simp: hasAttribute_def map_of_eq_None_iff)
  ultimately show ?thesis by (rule rev_finite_subset)
qed

text \<open>The \<open>while\<close> loop of \<open>folioSequentialsFromXml\<close>, from counter \<open>i\<close> on. It ends because
  an element has finitely many attributes and different counters give different names.\<close>

function readSeqAttributes :: "QDomNode \<Rightarrow> string \<Rightarrow> nat \<Rightarrow> string list" where
  "readSeqAttributes folioseq seq i =
     (if hasAttribute folioseq (seq @ number i)
      then attribute folioseq (seq @ number i) # readSeqAttributes folioseq seq (Suc i)
      else [])"
  by pat_completeness auto

termination
proof (relation "measure (\<lambda>(e, seq, i). card {k. i \<le> k \<and> hasAttribute e (seq @ number k)})")
  show "wf (measure (\<lambda>(e, seq, i). card {k. i \<le> k \<and> hasAttribute e (seq @ number k)}))"
    by simp
next
  fix folioseq seq i
  assume h: "hasAttribute folioseq (seq @ number i)"
  have fin: "finite {k. i \<le> k \<and> hasAttribute folioseq (seq @ number k)}"
    using finite_numbered_attributes [of folioseq seq] by (rule rev_finite_subset) auto
  have "{k. Suc i \<le> k \<and> hasAttribute folioseq (seq @ number k)}
        \<subset> {k. i \<le> k \<and> hasAttribute folioseq (seq @ number k)}"
  proof
    show "{k. Suc i \<le> k \<and> hasAttribute folioseq (seq @ number k)}
        \<subseteq> {k. i \<le> k \<and> hasAttribute folioseq (seq @ number k)}" by auto
    have "i \<in> {k. i \<le> k \<and> hasAttribute folioseq (seq @ number k)}" using h by simp
    moreover have "i \<notin> {k. Suc i \<le> k \<and> hasAttribute folioseq (seq @ number k)}" by simp
    ultimately show "{k. Suc i \<le> k \<and> hasAttribute folioseq (seq @ number k)}
        \<noteq> {k. i \<le> k \<and> hasAttribute folioseq (seq @ number k)}" by blast
  qed
  with fin have "card {k. Suc i \<le> k \<and> hasAttribute folioseq (seq @ number k)}
        < card {k. i \<le> k \<and> hasAttribute folioseq (seq @ number k)}"
    by (rule psubset_card_mono)
  then show "((folioseq, seq, Suc i), (folioseq, seq, i))
      \<in> measure (\<lambda>(e, seq, i). card {k. i \<le> k \<and> hasAttribute e (seq @ number k)})"
    by simp
qed

declare readSeqAttributes.simps [simp del]

definition folioSequentialsFromXml ::
  "QDomNode \<Rightarrow> folio_hash \<Rightarrow> string \<Rightarrow> string \<Rightarrow> string \<Rightarrow> string \<Rightarrow> folio_hash" where
  "folioSequentialsFromXml root_element hash folioSeq seq type autonumFolioSeqType =
     fold (\<lambda>folioSeqAutoNum h.
             fold (\<lambda>folioseq h'. AList.update (attribute folioseq ''title'')
                                               (readSeqAttributes folioseq seq 1) h')
                  (childElements type folioSeqAutoNum) h)
          (findInDomElement root_element autonumFolioSeqType folioSeq) hash"


lemma last_number: "last (number n) = digit (n mod 10)"
  by (subst number.simps) simp

lemma digit_not_e: "d < 10 \<Longrightarrow> digit d \<noteq> CHR ''e''"
  unfolding digit_def by (auto simp: less_Suc_eq numeral_eq_Suc)

lemma numbered_not_title: "seq @ number n \<noteq> ''title''"
proof
  assume "seq @ number n = ''title''"
  then have "last (seq @ number n) = last ''title''" by simp
  then have "digit (n mod 10) = CHR ''e''" by (simp add: number_not_Nil last_number)
  then show False using digit_not_e [of "n mod 10"] by simp
qed

lemma setSeqAttributes_shape:
  "\<exists>as'. setSeqAttributes seq vs j (QDomElement t as cs) = QDomElement t as' cs"
  by (induction vs arbitrary: j as) auto

lemma setSeqAttributes_other:
  "\<forall>i<length vs. n \<noteq> seq @ number (Suc (j + i)) \<Longrightarrow>
   map_of (attributeMap (setSeqAttributes seq vs j (QDomElement t as cs))) n = map_of as n"
proof (induction vs arbitrary: j as)
  case Nil
  then show ?case by simp
next
  case (Cons v vs)
  from Cons.prems have "n \<noteq> seq @ number (Suc j)" by fastforce
  moreover from Cons.prems have "\<forall>i<length vs. n \<noteq> seq @ number (Suc (Suc j + i))" by fastforce
  ultimately show ?case using Cons.IH [of "Suc j"] by (simp add: update_conv')
qed

lemma setSeqAttributes_numbered:
  "i < length vs \<Longrightarrow>
   map_of (attributeMap (setSeqAttributes seq vs j (QDomElement t as cs)))
     (seq @ number (Suc (j + i))) = Some (vs ! i)"
proof (induction vs arbitrary: j as i)
  case Nil
  then show ?case by simp
next
  case (Cons v vs)
  show ?case
  proof (cases i)
    case 0
    have "\<forall>k<length vs. seq @ number (Suc j) \<noteq> seq @ number (Suc (Suc j + k))"
      by (auto dest: number_inj)
    then show ?thesis using 0
      by (simp add: setSeqAttributes_other update_conv')
  next
    case (Suc i')
    with Cons.prems have "i' < length vs" by simp
    from Cons.IH [OF this, of "Suc j"] show ?thesis using Suc by simp
  qed
qed

lemma readSeqAttributes_eq:
  "\<forall>k<length vs. map_of (attributeMap e) (seq @ number (i + k)) = Some (vs ! k) \<Longrightarrow>
   map_of (attributeMap e) (seq @ number (i + length vs)) = None \<Longrightarrow>
   readSeqAttributes e seq i = vs"
proof (induction vs arbitrary: i)
  case Nil
  then show ?case by (subst readSeqAttributes.simps) (simp add: hasAttribute_def)
next
  case (Cons v vs)
  from Cons.prems(1) have here: "map_of (attributeMap e) (seq @ number i) = Some v" by fastforce
  have "\<forall>k<length vs. map_of (attributeMap e) (seq @ number (Suc i + k)) = Some (vs ! k)"
  proof (intro allI impI)
    fix k assume "k < length vs"
    then have "Suc k < length (v # vs)" by simp
    with Cons.prems(1) have "map_of (attributeMap e) (seq @ number (i + Suc k)) = Some ((v # vs) ! Suc k)"
      by blast
    then show "map_of (attributeMap e) (seq @ number (Suc i + k)) = Some (vs ! k)" by simp
  qed
  moreover from Cons.prems(2) have "map_of (attributeMap e) (seq @ number (Suc i + length vs)) = None"
    by simp
  ultimately have "readSeqAttributes e seq (Suc i) = vs" by (rule Cons.IH)
  with here show ?case
    by (subst readSeqAttributes.simps) (simp add: hasAttribute_def attribute_def attributeOr_def)
qed

lemma folioseqElement_isElement: "isElement (folioseqElement seq type kv)"
  using setSeqAttributes_shape [of seq "snd kv" 0 type "[(''title'', fst kv)]" "[]"]
  by (auto simp: folioseqElement_def createElement_def)

lemma folioseqElement_tagName: "tagName (folioseqElement seq type kv) = type"
  using setSeqAttributes_shape [of seq "snd kv" 0 type "[(''title'', fst kv)]" "[]"]
  by (auto simp: folioseqElement_def createElement_def)

lemma folioseqElement_title: "attribute (folioseqElement seq type kv) ''title'' = fst kv"
proof -
  have "\<forall>i<length (snd kv). ''title'' \<noteq> seq @ number (Suc (0 + i))"
    using numbered_not_title [of seq] by metis
  then have "map_of (attributeMap (folioseqElement seq type kv)) ''title'' = Some (fst kv)"
    by (simp add: folioseqElement_def createElement_def setSeqAttributes_other)
  then show ?thesis by (simp add: attribute_def attributeOr_def)
qed

lemma folioseqElement_read: "readSeqAttributes (folioseqElement seq type kv) seq 1 = snd kv"
proof (rule readSeqAttributes_eq)
  show "\<forall>k<length (snd kv). map_of (attributeMap (folioseqElement seq type kv))
          (seq @ number (1 + k)) = Some (snd kv ! k)"
    using setSeqAttributes_numbered [of _ "snd kv" seq 0 type "[(''title'', fst kv)]" "[]"]
    by (simp add: folioseqElement_def createElement_def)
next
  have "\<forall>i<length (snd kv). seq @ number (1 + length (snd kv)) \<noteq> seq @ number (Suc (0 + i))"
    by (auto dest: number_inj)
  then have "map_of (attributeMap (folioseqElement seq type kv)) (seq @ number (1 + length (snd kv)))
      = map_of [(''title'', fst kv)] (seq @ number (1 + length (snd kv)))"
    unfolding folioseqElement_def createElement_def setAttribute.simps AList.update.simps
    by (rule setSeqAttributes_other)
  also have "\<dots> = None" using numbered_not_title [of seq "1 + length (snd kv)"] by auto
  finally show "map_of (attributeMap (folioseqElement seq type kv)) (seq @ number (1 + length (snd kv))) = None" .
qed

lemma folioSequentialsToXml_children:
  "folioSequentialsToXml hash (QDomElement t as cs) seq type
     = QDomElement t as (cs @ map (folioseqElement seq type) hash)"
  unfolding folioSequentialsToXml_def
  by (induction hash arbitrary: cs) simp_all

lemma fold_insert_map_of:
  "distinct (map fst hash) \<Longrightarrow>
   map_of (fold (\<lambda>kv h. AList.update (fst kv) (snd kv) h) hash h0) = map_of h0 ++ map_of hash"
proof (induction hash arbitrary: h0)
  case Nil
  then show ?case by simp
next
  case (Cons kv hash)
  then have notin: "fst kv \<notin> dom (map_of hash)" by (simp add: dom_map_of_conv_image_fst)
  have "map_of (fold (\<lambda>kv h. AList.update (fst kv) (snd kv) h) (kv # hash) h0)
      = (map_of h0)(fst kv \<mapsto> snd kv) ++ map_of hash"
    using Cons by (simp add: update_conv')
  also have "\<dots> = (map_of h0 ++ map_of hash)(fst kv \<mapsto> snd kv)"
    using notin by (auto simp: map_add_def fun_eq_iff split: option.splits)
  also have "\<dots> = map_of h0 ++ (map_of hash)(fst kv \<mapsto> snd kv)"
    by simp
  also have "(map_of hash)(fst kv \<mapsto> snd kv) = map_of (kv # hash)"
    by (cases kv) simp
  finally show ?case .
qed

lemma fold_insert_distinct:
  "distinct (map fst h0) \<Longrightarrow>
   distinct (map fst (fold (\<lambda>kv h. AList.update (fst kv) (snd kv) h) hash h0))"
  by (induction hash arbitrary: h0) (simp_all add: distinct_update)

lemma folioSequentialsFromXml_toXml:
  "folioSequentialsFromXml
     (appendChild (createElement root_tag)
        (appendChild (createElement autonumFolioSeqType)
           (folioSequentialsToXml hash (createElement folioSeq) seq type)))
     h0 folioSeq seq type autonumFolioSeqType
   = fold (\<lambda>kv h. AList.update (fst kv) (snd kv) h) hash h0"
proof -
  let ?X = "QDomElement folioSeq [] (map (folioseqElement seq type) hash)"
  have X: "folioSequentialsToXml hash (createElement folioSeq) seq type = ?X"
    by (simp add: createElement_def folioSequentialsToXml_children)
  have find: "findInDomElement (appendChild (createElement root_tag)
        (appendChild (createElement autonumFolioSeqType) ?X)) autonumFolioSeqType folioSeq = [?X]"
    by (simp add: createElement_def findInDomElement_def)
  have kids: "childElements type ?X = map (folioseqElement seq type) hash"
    by (simp add: childElements_def folioseqElement_isElement folioseqElement_tagName)
  show ?thesis
    unfolding X folioSequentialsFromXml_def find
    by (simp add: kids fold_map comp_def folioseqElement_title folioseqElement_read
          del: One_nat_def)
qed

text \<open>
  Claim C4. Writing a hash (one entry per title) with \<open>folioSequentialsToXml\<close> into the
  element \<open>folioSeq\<close>, placed as \<open>Diagram::toXml\<close> places it (inside an element
  \<open>autonumFolioSeqType\<close> under the root), and reading the document back with
  \<open>folioSequentialsFromXml\<close> into an empty hash, with the same element type and attribute
  prefix, gives a hash with the same entries as the original one, whatever the tag names
  and the prefix are.
\<close>

theorem folioSequentials_roundtrip:
  assumes "distinct (map fst hash)"
  shows "map_of (folioSequentialsFromXml
           (appendChild (createElement root_tag)
              (appendChild (createElement autonumFolioSeqType)
                 (folioSequentialsToXml hash (createElement folioSeq) seq_type type)))
           [] folioSeq seq_type type autonumFolioSeqType) = map_of hash
       \<and> distinct (map fst (folioSequentialsFromXml
           (appendChild (createElement root_tag)
              (appendChild (createElement autonumFolioSeqType)
                 (folioSequentialsToXml hash (createElement folioSeq) seq_type type)))
           [] folioSeq seq_type type autonumFolioSeqType))"
  using assms
  by (simp add: folioSequentialsFromXml_toXml fold_insert_map_of fold_insert_distinct)


theorem folioSequentials_roundtrip_witness:
  "distinct (map fst [(''auto1'', [''3'', ''12'']), (''auto2'', [])])
   \<and> map_of (folioSequentialsFromXml
           (appendChild (createElement ''diagram'')
              (appendChild (createElement ''elementautonumfoliosequentials'')
                 (folioSequentialsToXml [(''auto1'', [''3'', ''12'']), (''auto2'', [])]
                    (createElement ''elementunitfolioseq'') ''sequf_'' ''unitfolioseq'')))
           [] ''elementunitfolioseq'' ''sequf_'' ''unitfolioseq''
           ''elementautonumfoliosequentials'')
     = map_of [(''auto1'', [''3'', ''12'']), (''auto2'', [])]"
  using folioSequentials_roundtrip [of "[(''auto1'', [''3'', ''12'']), (''auto2'', [])]"
      "''diagram''" "''elementautonumfoliosequentials''" "''elementunitfolioseq''"
      "''sequf_''" "''unitfolioseq''"]
  by simp


section \<open>Potentials\<close>

text \<open>
  \<open>Diagram::potentials\<close> works on the list \<open>content().conductors()\<close>. A conductor is a
  value of any type \<open>'c\<close> (its address). \<open>Conductor::relatedPotentialConductors\<close> is not
  among the sources at hand and is a parameter \<open>related\<close>: the set it returns for each
  conductor. The order in which \<open>foreach\<close> visits a \<open>QSet\<close> is not fixed by the program
  either; it is a parameter \<open>order\<close>, which lists a set. \<open>QList::removeOne\<close> is
  \<open>remove1\<close>.
\<close>

lemma length_fold_remove1: "length (fold remove1 xs cs) \<le> length cs"
proof (induction xs arbitrary: cs)
  case Nil
  then show ?case by simp
next
  case (Cons x xs)
  have "length (fold remove1 xs (remove1 x cs)) \<le> length (remove1 x cs)" by (rule Cons.IH)
  also have "\<dots> \<le> length cs" by (simp add: length_remove1)
  finally show ?case by simp
qed

text \<open>
  The \<open>do ... while\<close> loop. It is entered with a list that is not empty, and goes round
  again only while the list is not empty, so the equation for the empty list is never
  reached from \<open>potentials\<close>. Each round takes the first conductor off the list, so the
  list gets shorter and the loop ends.
\<close>

function potentials_loop :: "('c set \<Rightarrow> 'c list) \<Rightarrow> ('c \<Rightarrow> 'c set) \<Rightarrow> 'c list \<Rightarrow> 'c set list" where
  "potentials_loop order related [] = []"
| "potentials_loop order related (c # cs) =
     (let one_potential = insert c (related c);
          conductors_list = fold remove1 (order one_potential) cs
      in one_potential #
         (if conductors_list = [] then [] else potentials_loop order related conductors_list))"
  by pat_completeness auto
termination
  by (relation "measure (\<lambda>(order, related, cs). length cs)")
     (auto simp: length_fold_remove1 le_imp_less_Suc)

definition potentials :: "('c set \<Rightarrow> 'c list) \<Rightarrow> ('c \<Rightarrow> 'c set) \<Rightarrow> 'c list \<Rightarrow> 'c set list" where
  "potentials order related conductors =
     (if length conductors = 0 then [] else potentials_loop order related conductors)"

text \<open>A \<open>QSet\<close> is finite, and iterating it visits each member once.\<close>

definition valid_iteration :: "('c set \<Rightarrow> 'c list) \<Rightarrow> bool" where
  "valid_iteration order \<longleftrightarrow> (\<forall>S. finite S \<longrightarrow> set (order S) = S \<and> distinct (order S))"

text \<open>
  What the partition property asks of \<open>relatedPotentialConductors\<close>. For the union to be
  the conductors of the diagram, it stays on this diagram. For the sets to be disjoint,
  the potentials of two conductors of the diagram, each the conductor with what is
  related to it, are the same set or have nothing in common. This is so in particular
  when a related conductor has the same potential.
\<close>

definition on_this_diagram :: "('c \<Rightarrow> 'c set) \<Rightarrow> 'c list \<Rightarrow> bool" where
  "on_this_diagram related conductors \<longleftrightarrow> (\<forall>c\<in>set conductors. related c \<subseteq> set conductors)"

definition equal_or_disjoint :: "('c \<Rightarrow> 'c set) \<Rightarrow> 'c list \<Rightarrow> bool" where
  "equal_or_disjoint related conductors \<longleftrightarrow>
     (\<forall>c\<in>set conductors. \<forall>d\<in>set conductors.
        insert c (related c) = insert d (related d)
        \<or> insert c (related c) \<inter> insert d (related d) = {})"

definition same_potential :: "('c \<Rightarrow> 'c set) \<Rightarrow> 'c list \<Rightarrow> bool" where
  "same_potential related conductors \<longleftrightarrow>
     (\<forall>c\<in>set conductors. \<forall>d\<in>related c. insert d (related d) = insert c (related c))"

definition pairwise_disjoint :: "'c set list \<Rightarrow> bool" where
  "pairwise_disjoint ps \<longleftrightarrow>
     (\<forall>i<length ps. \<forall>j<length ps. i \<noteq> j \<longrightarrow> ps ! i \<inter> ps ! j = {})"

text \<open>
  Three examples. In the first, conductors 0 and 2 are at the same potential and
  conductor 1 is alone. In the second, conductor 0 of the diagram is at the potential of
  conductor 1, which is on another folio. In the third, conductor 1 is related to
  conductor 0, but conductor 0 is related to nothing.
\<close>

definition example_related :: "nat \<Rightarrow> nat set" where
  "example_related c = (if c = 0 then {2} else if c = 2 then {0} else {})"

definition cross_folio_related :: "nat \<Rightarrow> nat set" where
  "cross_folio_related c = (if c = 0 then {1} else if c = 1 then {0} else {})"

definition one_way_related :: "nat \<Rightarrow> nat set" where
  "one_way_related c = (if c = 1 then {0} else {})"

lemma set_fold_remove1_subset: "set (fold remove1 xs cs) \<subseteq> set cs"
proof (induction xs arbitrary: cs)
  case Nil
  then show ?case by simp
next
  case (Cons x xs)
  have "set (fold remove1 xs (remove1 x cs)) \<subseteq> set (remove1 x cs)" by (rule Cons.IH)
  also have "\<dots> \<subseteq> set cs" by (rule set_remove1_subset)
  finally show ?case by simp
qed

lemma fold_remove1_distinct:
  "distinct cs \<Longrightarrow> distinct (fold remove1 xs cs) \<and> set (fold remove1 xs cs) = set cs - set xs"
proof (induction xs arbitrary: cs)
  case Nil
  then show ?case by simp
next
  case (Cons x xs)
  from Cons.prems have d: "distinct (remove1 x cs)" by simp
  from Cons.prems have s: "set (remove1 x cs) = set cs - {x}" by simp
  from Cons.IH [OF d] s show ?case by auto
qed

lemma set_fold_remove1_cover: "x \<in> set cs \<Longrightarrow> x \<in> set (fold remove1 xs cs) \<or> x \<in> set xs"
proof (induction xs arbitrary: cs)
  case Nil
  then show ?case by simp
next
  case (Cons y xs)
  show ?case
  proof (cases "x = y")
    case True
    then show ?thesis by simp
  next
    case False
    with Cons.prems have "x \<in> set (remove1 y cs)" by simp
    from Cons.IH [OF this] show ?thesis by auto
  qed
qed

lemma potentials_loop_shape:
  "P \<in> set (potentials_loop order related cs) \<Longrightarrow> \<exists>c\<in>set cs. P = insert c (related c)"
proof (induction order related cs rule: potentials_loop.induct)
  case (1 order related)
  then show ?case by simp
next
  case (2 order related c cs)
  let ?rest = "fold remove1 (order (insert c (related c))) cs"
  show ?case
  proof (cases "P = insert c (related c)")
    case True
    then show ?thesis by simp
  next
    case False
    with "2.prems" have ne: "?rest \<noteq> []" and P: "P \<in> set (potentials_loop order related ?rest)"
      by (auto simp: Let_def split: if_splits)
    from "2.IH" [OF refl refl ne P] obtain d where "d \<in> set ?rest" "P = insert d (related d)"
      by blast
    moreover have "set ?rest \<subseteq> set cs" by (rule set_fold_remove1_subset)
    ultimately show ?thesis by auto
  qed
qed

lemma potentials_loop_cover:
  assumes "valid_iteration order" "\<forall>c. finite (related c)"
  shows "set cs \<subseteq> \<Union> (set (potentials_loop order related cs))"
  using assms
proof (induction order related cs rule: potentials_loop.induct)
  case (1 order related)
  then show ?case by simp
next
  case (2 order related c cs)
  let ?one = "insert c (related c)"
  let ?rest = "fold remove1 (order ?one) cs"
  from "2.prems" have ord: "set (order ?one) = ?one" by (simp add: valid_iteration_def)
  show ?case
  proof
    fix x assume x: "x \<in> set (c # cs)"
    show "x \<in> \<Union> (set (potentials_loop order related (c # cs)))"
    proof (cases "x \<in> ?one")
      case True
      then show ?thesis by (auto simp: Let_def)
    next
      case False
      with x have "x \<in> set cs" by auto
      from set_fold_remove1_cover [OF this, of "order ?one"] False ord
      have xr: "x \<in> set ?rest" by simp
      then have ne: "?rest \<noteq> []" by auto
      from "2.IH" [OF refl refl ne "2.prems"] xr
      have "x \<in> \<Union> (set (potentials_loop order related ?rest))" by blast
      with ne show ?thesis by (simp add: Let_def)
    qed
  qed
qed

lemma equal_or_disjoint_subset:
  "equal_or_disjoint related cs \<Longrightarrow> set cs' \<subseteq> set cs \<Longrightarrow> equal_or_disjoint related cs'"
  unfolding equal_or_disjoint_def by blast

lemma same_potential_equal_or_disjoint:
  assumes "same_potential related cs"
  shows "equal_or_disjoint related cs"
  unfolding equal_or_disjoint_def
proof (intro ballI)
  fix c d assume c: "c \<in> set cs" and d: "d \<in> set cs"
  have same: "insert x (related x) = insert a (related a)"
    if "a \<in> set cs" "x \<in> insert a (related a)" for a x
    using that assms unfolding same_potential_def by blast
  show "insert c (related c) = insert d (related d)
      \<or> insert c (related c) \<inter> insert d (related d) = {}"
  proof (cases "insert c (related c) \<inter> insert d (related d) = {}")
    case True
    then show ?thesis ..
  next
    case False
    then obtain x where "x \<in> insert c (related c)" "x \<in> insert d (related d)" by blast
    with same [OF c] same [OF d] have "insert c (related c) = insert d (related d)" by metis
    then show ?thesis ..
  qed
qed

lemma potentials_loop_disjoint:
  assumes "valid_iteration order" "\<forall>c. finite (related c)" "distinct cs"
    and "equal_or_disjoint related cs"
  shows "sorted_wrt (\<lambda>P Q. P \<inter> Q = {}) (potentials_loop order related cs)"
  using assms
proof (induction order related cs rule: potentials_loop.induct)
  case (1 order related)
  then show ?case by simp
next
  case (2 order related c cs)
  let ?one = "insert c (related c)"
  let ?rest = "fold remove1 (order ?one) cs"
  from "2.prems" have ord: "set (order ?one) = ?one" by (simp add: valid_iteration_def)
  from "2.prems" have dcs: "distinct cs" by simp
  from fold_remove1_distinct [OF dcs, of "order ?one"] ord
  have drest: "distinct ?rest" and srest: "set ?rest = set cs - ?one" by simp_all
  show ?case
  proof (cases "?rest = []")
    case True
    then show ?thesis by (simp add: Let_def)
  next
    case ne: False
    from srest have "set ?rest \<subseteq> set (c # cs)" by auto
    with "2.prems"(4) have eod: "equal_or_disjoint related ?rest"
      by (rule equal_or_disjoint_subset)
    from "2.IH" [OF refl refl ne "2.prems"(1,2) drest eod]
    have IH: "sorted_wrt (\<lambda>P Q. P \<inter> Q = {}) (potentials_loop order related ?rest)" .
    have "?one \<inter> Q = {}" if Q: "Q \<in> set (potentials_loop order related ?rest)" for Q
    proof -
      from potentials_loop_shape [OF Q]
      obtain d where d: "d \<in> set ?rest" and Qd: "Q = insert d (related d)" by blast
      from d srest have dcs': "d \<in> set (c # cs)" and dn: "d \<notin> ?one" by auto
      have "c \<in> set (c # cs)" by simp
      with "2.prems"(4) dcs'
      have "?one = insert d (related d) \<or> ?one \<inter> insert d (related d) = {}"
        unfolding equal_or_disjoint_def by blast
      moreover have "?one \<noteq> insert d (related d)" using dn by blast
      ultimately show ?thesis using Qd by blast
    qed
    with IH ne show ?thesis by (simp add: Let_def)
  qed
qed

text \<open>
  Claim C2, as amended. The sets returned by \<open>potentials\<close> are non-empty, each is a
  conductor of the diagram together with all the conductors related to it, and every
  conductor of the diagram is in one of them. When \<open>relatedPotentialConductors\<close>
  returns conductors of this diagram only, the union of the sets is exactly the set of
  conductors of the diagram. When the potentials of two conductors of the diagram are
  the same set or have nothing in common, the sets are pairwise disjoint. Neither
  condition is asked for the other conclusion.
\<close>

theorem potentials_partition:
  assumes "valid_iteration order" and "\<forall>c. finite (related c)" and "distinct conductors"
  shows "(\<forall>P\<in>set (potentials order related conductors). P \<noteq> {})
       \<and> (\<forall>P\<in>set (potentials order related conductors).
             \<exists>c\<in>set conductors. P = insert c (related c))
       \<and> set conductors \<subseteq> \<Union> (set (potentials order related conductors))
       \<and> (on_this_diagram related conductors
          \<longrightarrow> \<Union> (set (potentials order related conductors)) = set conductors)
       \<and> (equal_or_disjoint related conductors
          \<longrightarrow> pairwise_disjoint (potentials order related conductors))"
proof -
  let ?ps = "potentials_loop order related conductors"
  have eq: "potentials order related conductors = ?ps"
    by (cases conductors) (simp_all add: potentials_def)
  have shape: "\<forall>P\<in>set ?ps. \<exists>c\<in>set conductors. P = insert c (related c)"
    by (intro ballI) (rule potentials_loop_shape)
  have nonempty: "\<forall>P\<in>set ?ps. P \<noteq> {}"
  proof
    fix P assume "P \<in> set ?ps"
    from potentials_loop_shape [OF this] obtain c where "P = insert c (related c)" by blast
    then show "P \<noteq> {}" by simp
  qed
  have cover: "set conductors \<subseteq> \<Union> (set ?ps)"
    using assms(1,2) by (rule potentials_loop_cover)
  have union: "\<Union> (set ?ps) = set conductors" if "on_this_diagram related conductors"
  proof -
    from that have closed: "\<forall>c\<in>set conductors. related c \<subseteq> set conductors"
      by (simp add: on_this_diagram_def)
    have "\<Union> (set ?ps) \<subseteq> set conductors"
    proof (rule Union_least)
      fix P assume "P \<in> set ?ps"
      from potentials_loop_shape [OF this]
      obtain c where "c \<in> set conductors" "P = insert c (related c)" by blast
      with closed show "P \<subseteq> set conductors" by auto
    qed
    with cover show ?thesis by blast
  qed
  have disjoint: "pairwise_disjoint ?ps" if "equal_or_disjoint related conductors"
  proof -
    have sw: "sorted_wrt (\<lambda>P Q. P \<inter> Q = {}) ?ps"
      using assms that by (rule potentials_loop_disjoint)
    show ?thesis
      unfolding pairwise_disjoint_def
    proof (intro allI impI)
      fix i j assume ij: "i < length ?ps" "j < length ?ps" "i \<noteq> j"
      show "?ps ! i \<inter> ?ps ! j = {}"
      proof (cases "i < j")
        case True
        with sw ij show ?thesis by (simp add: sorted_wrt_iff_nth_less)
      next
        case False
        with ij have "j < i" by simp
        with sw ij have "?ps ! j \<inter> ?ps ! i = {}" by (simp add: sorted_wrt_iff_nth_less)
        then show ?thesis by blast
      qed
    qed
  qed
  show ?thesis
    unfolding eq
  proof (intro conjI impI)
    show "\<forall>P\<in>set ?ps. P \<noteq> {}" by (rule nonempty)
    show "\<forall>P\<in>set ?ps. \<exists>c\<in>set conductors. P = insert c (related c)" by (rule shape)
    show "set conductors \<subseteq> \<Union> (set ?ps)" by (rule cover)
  next
    assume "on_this_diagram related conductors"
    then show "\<Union> (set ?ps) = set conductors" by (rule union)
  next
    assume "equal_or_disjoint related conductors"
    then show "pairwise_disjoint ?ps" by (rule disjoint)
  qed
qed

text \<open>
  The witness takes the first example, where both conditions hold, and the second, where
  the related conductor is on another folio: the potentials are still disjoint there.
\<close>

theorem potentials_partition_witness:
  "valid_iteration (sorted_list_of_set :: nat set \<Rightarrow> nat list)
   \<and> (\<forall>c. finite (example_related c))
   \<and> distinct [0, 1, 2 :: nat]
   \<and> on_this_diagram example_related [0, 1, 2]
   \<and> equal_or_disjoint example_related [0, 1, 2]
   \<and> \<Union> (set (potentials sorted_list_of_set example_related [0, 1, 2])) = set [0, 1, 2]
   \<and> pairwise_disjoint (potentials sorted_list_of_set example_related [0, 1, 2])
   \<and> (\<forall>c. finite (cross_folio_related c))
   \<and> distinct [0, 2 :: nat]
   \<and> equal_or_disjoint cross_folio_related [0, 2]
   \<and> pairwise_disjoint (potentials sorted_list_of_set cross_folio_related [0, 2])"
proof -
  have h1: "valid_iteration (sorted_list_of_set :: nat set \<Rightarrow> nat list)"
    by (simp add: valid_iteration_def)
  have h2: "\<forall>c. finite (example_related c)"
    by (simp add: example_related_def)
  have h3: "distinct [0, 1, 2 :: nat]" by simp
  have h4: "on_this_diagram example_related [0, 1, 2]"
    by (simp add: on_this_diagram_def example_related_def)
  have h5: "equal_or_disjoint example_related [0, 1, 2]"
    by (auto simp: equal_or_disjoint_def example_related_def)
  have k2: "\<forall>c. finite (cross_folio_related c)"
    by (simp add: cross_folio_related_def)
  have k3: "distinct [0, 2 :: nat]" by simp
  have k5: "equal_or_disjoint cross_folio_related [0, 2]"
    by (simp add: equal_or_disjoint_def cross_folio_related_def)
  from potentials_partition [OF h1 h2 h3] h4 h5
  have r1: "\<Union> (set (potentials sorted_list_of_set example_related [0, 1, 2])) = set [0, 1, 2]
   \<and> pairwise_disjoint (potentials sorted_list_of_set example_related [0, 1, 2])"
    by blast
  from potentials_partition [OF h1 k2 k3] k5
  have r2: "pairwise_disjoint (potentials sorted_list_of_set cross_folio_related [0, 2])"
    by blast
  from h1 h2 h3 h4 h5 k2 k3 k5 r1 r2 show ?thesis by blast
qed

text \<open>
  The claim as first stated fails in two ways. Where a conductor of the diagram is
  related to a conductor that is not on this diagram (\<open>relatedPotentialConductors\<close>
  follows folio reports to other diagrams), the union of the potentials is larger than
  the conductors of the diagram, though the potentials of the diagram's conductors are
  equal or disjoint. Where conductor 1 is related to conductor 0 and conductor 0 to
  nothing, all on this diagram, the two sets returned are \<open>{0}\<close> and \<open>{0, 1}\<close>, which
  are not disjoint.
\<close>

theorem potentials_partition_counterexample:
  "equal_or_disjoint cross_folio_related [0, 2]
   \<and> \<Union> (set (potentials sorted_list_of_set cross_folio_related [0, 2])) \<noteq> set [0, 2]
   \<and> on_this_diagram one_way_related [0, 1]
   \<and> potentials sorted_list_of_set one_way_related [0, 1] = [{0}, {0, 1}]
   \<and> \<not> pairwise_disjoint (potentials sorted_list_of_set one_way_related [0, 1])"
proof -
  have c1: "equal_or_disjoint cross_folio_related [0, 2]"
    by (simp add: equal_or_disjoint_def cross_folio_related_def)
  have p1: "potentials sorted_list_of_set cross_folio_related [0, 2] = [{0, 1}, {2}]"
    by (auto simp: potentials_def cross_folio_related_def Let_def)
  have c2: "\<Union> (set (potentials sorted_list_of_set cross_folio_related [0, 2])) \<noteq> set [0, 2]"
    unfolding p1 by auto
  have c3: "on_this_diagram one_way_related [0, 1]"
    by (simp add: on_this_diagram_def one_way_related_def)
  have p2: "potentials sorted_list_of_set one_way_related [0, 1] = [{0}, {0, 1}]"
    by (auto simp: potentials_def one_way_related_def Let_def)
  have c4: "\<not> pairwise_disjoint (potentials sorted_list_of_set one_way_related [0, 1])"
  proof
    assume "pairwise_disjoint (potentials sorted_list_of_set one_way_related [0, 1])"
    then have "[{0}, {0, 1 :: nat}] ! 0 \<inter> [{0}, {0, 1}] ! 1 = {}"
      unfolding p2 pairwise_disjoint_def by force
    then show False by simp
  qed
  from c1 c2 c3 p2 c4 show ?thesis by blast
qed

lemma fold_remove1_order:
  assumes "valid_iteration order1" "valid_iteration order2" "finite S"
  shows "fold remove1 (order1 S) cs = fold remove1 (order2 S) cs"
proof -
  from assms have "set (order1 S) = set (order2 S)" "distinct (order1 S)" "distinct (order2 S)"
    by (simp_all add: valid_iteration_def)
  then have "mset (order1 S) = mset (order2 S)"
    by (simp add: set_eq_iff_mset_eq_distinct)
  moreover have "remove1 x \<circ> remove1 y = remove1 y \<circ> remove1 x" for x y :: 'a
    by (auto simp: fun_eq_iff remove1_commute)
  ultimately have "fold remove1 (order1 S) = fold remove1 (order2 S)"
    by (intro fold_multiset_equiv) auto
  then show ?thesis by simp
qed

lemma potentials_loop_order:
  assumes "valid_iteration order1" "valid_iteration order2" "\<forall>c. finite (related c)"
  shows "potentials_loop order1 related cs = potentials_loop order2 related cs"
  using assms
proof (induction order1 related cs rule: potentials_loop.induct)
  case (1 order related)
  then show ?case by simp
next
  case (2 order1 related c cs)
  let ?one = "insert c (related c)"
  from "2.prems" have fin: "finite ?one" by simp
  have rest: "fold remove1 (order1 ?one) cs = fold remove1 (order2 ?one) cs"
    using "2.prems"(1,2) fin by (rule fold_remove1_order)
  show ?case
  proof (cases "fold remove1 (order1 ?one) cs = []")
    case True
    with rest show ?thesis by (simp add: Let_def)
  next
    case False
    from "2.IH" [OF refl refl False "2.prems"] rest False
    show ?thesis by (simp add: Let_def)
  qed
qed

text \<open>
  Claim C7. The list of potentials depends on the diagram state only (the conductors in
  scene order and what is related to each): two runs that iterate the hash sets in
  different orders return the same list of sets.
\<close>

theorem potentials_deterministic:
  assumes "valid_iteration order1" and "valid_iteration order2" and "\<forall>c. finite (related c)"
  shows "potentials order1 related conductors = potentials order2 related conductors"
  using potentials_loop_order [OF assms] by (simp add: potentials_def)


theorem potentials_deterministic_witness:
  "valid_iteration (sorted_list_of_set :: nat set \<Rightarrow> nat list)
   \<and> valid_iteration (\<lambda>S. rev (sorted_list_of_set S) :: nat list)
   \<and> (\<forall>c. finite (example_related c))
   \<and> potentials sorted_list_of_set example_related [0, 1, 2]
       = potentials (\<lambda>S. rev (sorted_list_of_set S)) example_related [0, 1, 2]"
proof -
  have h1: "valid_iteration (sorted_list_of_set :: nat set \<Rightarrow> nat list)"
    by (simp add: valid_iteration_def)
  have h2: "valid_iteration (\<lambda>S. rev (sorted_list_of_set S) :: nat list)"
    by (simp add: valid_iteration_def)
  have h3: "\<forall>c. finite (example_related c)"
    by (simp add: example_related_def)
  from potentials_deterministic [OF h1 h2 h3, of "[0, 1, 2]"] h1 h2 h3 show ?thesis by blast
qed


section \<open>The diagram and its scene\<close>

text \<open>
  Graphics items are objects on the heap, shared by pointer between the scene, the
  terminals and the undo commands. An address is a number, and the store maps each
  address to the object that lives there. An object carries the fields of the item
  classes the diagram code reads: the item type, the selection flag, the z-value, the
  parent item and the items below it, the uuid and the terminals of an element, the two
  terminals of a conductor, the conductors registered with a terminal. What else an item
  class holds is its \<open>content\<close>, of a type the model leaves open. The z-value is a
  \<open>qreal\<close>; the model computes with real numbers.
\<close>

type_synonym addr = nat

datatype item_type =
    ElementType | ConductorType | DiagramImageItemType | IndependentTextItemType
  | QetShapeItemType | QetGraphicsTableItemType | TerminalStripItemType | TerminalType
  | OtherType

record 'x item =
  itype :: item_type
  isSelected :: bool
  zValue :: real
  parentItem :: addr
  descendants :: "addr list"
  uuid :: string
  terminals :: "addr list"
  terminal1 :: addr
  terminal2 :: addr
  conductors :: "addr list"
  content :: 'x

text \<open>
  Modelled from the spec: \<open>QPropertyUndoCommand\<close> is not among the sources at hand; it
  records an object, the name of a property, the old and the new value, and doing it
  sets the property to the new value. Only the property \<open>z\<close> is ever used here. A
  \<open>QUndoCommand\<close> has a text and child commands.
\<close>

datatype undo_command =
    QPropertyUndoCommand addr string real real
  | QUndoCommand string "undo_command list"

text \<open>
  The state a \<open>Diagram\<close> works on: its own members, the items of its scene (\<open>items()\<close>,
  children included), the store of objects with the next free address, and what it uses
  of its project (the read-only flag, the elements known to the project database, the
  embedded element collection) and of its undo stack (the commands and the index of the
  next one). Border and title block, conductor properties, item contents and the
  collection are of types the model leaves open.
\<close>

record ('b, 'p, 'x, 'c) diagram =
  border_and_titleblock :: 'b
  defaultConductorProperties :: 'p
  m_conductors_autonum_name :: string
  m_freeze_new_elements :: bool
  m_freeze_new_conductors :: bool
  m_elmt_unitfolio_max :: folio_hash
  m_elmt_tenfolio_max :: folio_hash
  m_elmt_hundredfolio_max :: folio_hash
  m_cnd_unitfolio_max :: folio_hash
  m_cnd_tenfolio_max :: folio_hash
  m_cnd_hundredfolio_max :: folio_hash
  items :: "addr list"
  objects :: "addr \<Rightarrow> 'x item"
  fresh :: addr
  isReadOnly :: bool
  dataBase :: "addr list"
  collection :: 'c
  undoCommands :: "undo_command list"
  undoIndex :: nat


text \<open>
  Two methods of the item classes that \<open>addItem\<close> and \<open>removeItem\<close> call are not among
  the sources at hand and are parameters: \<open>Conductor::calculateTextItemPosition\<close> gives
  the new content of the conductor, \<open>Element::unlinkAllElements\<close> the new content of
  every object once the element is unlinked.
\<close>

record 'x scene_env =
  calculateTextItemPosition :: "(addr \<Rightarrow> 'x item) \<Rightarrow> addr \<Rightarrow> 'x"
  unlinkAllElements :: "(addr \<Rightarrow> 'x item) \<Rightarrow> addr \<Rightarrow> addr \<Rightarrow> 'x"

text \<open>
  \<open>QGraphicsScene::addItem\<close> adds the item and the items below it that the scene does not
  hold yet; \<open>QGraphicsScene::removeItem\<close> takes the item and the items below it out.
\<close>

definition QGraphicsScene_addItem ::
  "addr \<Rightarrow> ('b, 'p, 'x, 'c) diagram \<Rightarrow> ('b, 'p, 'x, 'c) diagram" where
  "QGraphicsScene_addItem a d =
     d\<lparr>items := items d @ filter (\<lambda>b. b \<notin> set (items d)) (a # descendants (objects d a))\<rparr>"

definition QGraphicsScene_removeItem ::
  "addr \<Rightarrow> ('b, 'p, 'x, 'c) diagram \<Rightarrow> ('b, 'p, 'x, 'c) diagram" where
  "QGraphicsScene_removeItem a d =
     d\<lparr>items := filter (\<lambda>b. b \<notin> set (a # descendants (objects d a))) (items d)\<rparr>"

text \<open>
  Modelled from the spec: \<open>Terminal::addConductor\<close> and \<open>Terminal::removeConductor\<close> are
  not among the sources at hand. The first registers the conductor with the terminal (once),
  the second unregisters it. Likewise the project database's \<open>addElement\<close> and
  \<open>removeElement\<close> below add the element to the elements the database knows and remove
  it from them.
\<close>

definition Terminal_addConductor ::
  "addr \<Rightarrow> addr \<Rightarrow> (addr \<Rightarrow> 'x item) \<Rightarrow> (addr \<Rightarrow> 'x item)" where
  "Terminal_addConductor t c objs =
     objs(t := (objs t)\<lparr>conductors :=
       (if c \<in> set (conductors (objs t)) then conductors (objs t)
        else conductors (objs t) @ [c])\<rparr>)"

definition Terminal_removeConductor ::
  "addr \<Rightarrow> addr \<Rightarrow> (addr \<Rightarrow> 'x item) \<Rightarrow> (addr \<Rightarrow> 'x item)" where
  "Terminal_removeConductor t c objs =
     objs(t := (objs t)\<lparr>conductors := removeAll c (conductors (objs t))\<rparr>)"

text \<open>A null pointer is \<open>None\<close>. An item is in this scene (\<open>item->scene() == this\<close>) when
  it is among \<open>items\<close>.\<close>

definition addItem ::
  "'x scene_env \<Rightarrow> addr option \<Rightarrow> ('b, 'p, 'x, 'c) diagram \<Rightarrow> ('b, 'p, 'x, 'c) diagram" where
  "addItem E item d =
     (case item of
        None \<Rightarrow> d
      | Some a \<Rightarrow>
          if isReadOnly d \<or> a \<in> set (items d) then d
          else
            let d1 = QGraphicsScene_addItem a d in
            (case itype (objects d1 a) of
               ElementType \<Rightarrow> d1\<lparr>dataBase := dataBase d1 @ [a]\<rparr>
             | ConductorType \<Rightarrow>
                 let o1 = Terminal_addConductor (terminal1 (objects d1 a)) a (objects d1);
                     o2 = Terminal_addConductor (terminal2 (o1 a)) a o1;
                     o3 = o2(a := (o2 a)\<lparr>content := calculateTextItemPosition E o2 a\<rparr>)
                 in d1\<lparr>objects := o3\<rparr>
             | _ \<Rightarrow> d1))"

definition removeItem ::
  "'x scene_env \<Rightarrow> addr option \<Rightarrow> ('b, 'p, 'x, 'c) diagram \<Rightarrow> ('b, 'p, 'x, 'c) diagram" where
  "removeItem E item d =
     (case item of
        None \<Rightarrow> d
      | Some a \<Rightarrow>
          if isReadOnly d then d
          else
            let d1 =
              (case itype (objects d a) of
                 ElementType \<Rightarrow>
                   d\<lparr>objects := (\<lambda>b. (objects d b)\<lparr>content := unlinkAllElements E (objects d) a b\<rparr>),
                     dataBase := removeAll a (dataBase d)\<rparr>
               | ConductorType \<Rightarrow>
                   let o1 = Terminal_removeConductor (terminal1 (objects d a)) a (objects d);
                       o2 = Terminal_removeConductor (terminal2 (o1 a)) a o1
                   in d\<lparr>objects := o2\<rparr>
               | _ \<Rightarrow> d)
            in QGraphicsScene_removeItem a d1)"

lemma Terminal_addConductor_same:
  "c \<in> set (conductors (Terminal_addConductor t c objs t))"
  by (simp add: Terminal_addConductor_def)

lemma Terminal_addConductor_keeps:
  "c \<in> set (conductors (objs u)) \<Longrightarrow> c \<in> set (conductors (Terminal_addConductor t c' objs u))"
  by (auto simp: Terminal_addConductor_def)

lemma conductors_content_update:
  "conductors ((objs(a := (objs a)\<lparr>content := x\<rparr>)) u) = conductors (objs u)"
  by simp

lemma Terminal_addConductor_ends:
  "terminal1 (Terminal_addConductor t c objs a) = terminal1 (objs a)"
  "terminal2 (Terminal_addConductor t c objs a) = terminal2 (objs a)"
  by (simp_all add: Terminal_addConductor_def)

lemma Terminal_removeConductor_same:
  "c \<notin> set (conductors (Terminal_removeConductor t c objs t))"
  by (simp add: Terminal_removeConductor_def)

lemma Terminal_removeConductor_keeps:
  "c \<notin> set (conductors (objs u)) \<Longrightarrow> c \<notin> set (conductors (Terminal_removeConductor t c' objs u))"
  by (auto simp: Terminal_removeConductor_def)

lemma Terminal_removeConductor_ends:
  "terminal1 (Terminal_removeConductor t c objs a) = terminal1 (objs a)"
  "terminal2 (Terminal_removeConductor t c objs a) = terminal2 (objs a)"
  by (simp_all add: Terminal_removeConductor_def)

lemma addItem_conductor:
  assumes "\<not> isReadOnly d" "a \<notin> set (items d)" "itype (objects d a) = ConductorType"
  shows "a \<in> set (conductors (objects (addItem E (Some a) d) (terminal1 (objects d a))))
       \<and> a \<in> set (conductors (objects (addItem E (Some a) d) (terminal2 (objects d a))))
       \<and> a \<in> set (items (addItem E (Some a) d))"
proof -
  let ?t1 = "terminal1 (objects d a)" and ?t2 = "terminal2 (objects d a)"
  let ?o1 = "Terminal_addConductor ?t1 a (objects d)"
  let ?o2 = "Terminal_addConductor ?t2 a ?o1"
  let ?o3 = "?o2(a := (?o2 a)\<lparr>content := calculateTextItemPosition E ?o2 a\<rparr>)"
  have obj: "objects (addItem E (Some a) d) = ?o3"
    and itm: "a \<in> set (items (addItem E (Some a) d))"
    using assms
    by (simp_all add: addItem_def QGraphicsScene_addItem_def Let_def Terminal_addConductor_ends)
  have r1: "a \<in> set (conductors (?o2 ?t1))"
    by (intro Terminal_addConductor_keeps Terminal_addConductor_same)
  have r2: "a \<in> set (conductors (?o2 ?t2))"
    by (rule Terminal_addConductor_same)
  from r1 r2 itm show ?thesis unfolding obj conductors_content_update by blast
qed

lemma removeItem_conductor:
  assumes "\<not> isReadOnly d" "itype (objects d a) = ConductorType"
  shows "a \<notin> set (conductors (objects (removeItem E (Some a) d) (terminal1 (objects d a))))
       \<and> a \<notin> set (conductors (objects (removeItem E (Some a) d) (terminal2 (objects d a))))
       \<and> a \<notin> set (items (removeItem E (Some a) d))"
proof -
  let ?t1 = "terminal1 (objects d a)" and ?t2 = "terminal2 (objects d a)"
  let ?o1 = "Terminal_removeConductor ?t1 a (objects d)"
  let ?o2 = "Terminal_removeConductor ?t2 a ?o1"
  have obj: "objects (removeItem E (Some a) d) = ?o2"
    and itm: "a \<notin> set (items (removeItem E (Some a) d))"
    using assms
    by (simp_all add: removeItem_def QGraphicsScene_removeItem_def Let_def
        Terminal_removeConductor_ends)
  have r1: "a \<notin> set (conductors (?o2 ?t1))"
    by (intro Terminal_removeConductor_keeps Terminal_removeConductor_same)
  have r2: "a \<notin> set (conductors (?o2 ?t2))"
    by (rule Terminal_removeConductor_same)
  from r1 r2 itm show ?thesis unfolding obj by blast
qed

text \<open>
  Claim C9. On a read-only diagram \<open>addItem\<close> and \<open>removeItem\<close> change nothing at all.
  \<open>addItem\<close> changes nothing either for a null pointer or for an item already in the
  scene. On a writable diagram, a conductor that is added is in the scene and registered
  with both of its terminals afterwards, and a conductor that is removed is out of the
  scene and registered with neither of its terminals.
\<close>

theorem addItem_removeItem:
  "(isReadOnly d \<longrightarrow> addItem E item d = d \<and> removeItem E item d = d)
   \<and> addItem E None d = d
   \<and> (a \<in> set (items d) \<longrightarrow> addItem E (Some a) d = d)
   \<and> (\<not> isReadOnly d \<and> a \<notin> set (items d) \<and> itype (objects d a) = ConductorType \<longrightarrow>
        a \<in> set (conductors (objects (addItem E (Some a) d) (terminal1 (objects d a))))
      \<and> a \<in> set (conductors (objects (addItem E (Some a) d) (terminal2 (objects d a))))
      \<and> a \<in> set (items (addItem E (Some a) d)))
   \<and> (\<not> isReadOnly d \<and> itype (objects d a) = ConductorType \<longrightarrow>
        a \<notin> set (conductors (objects (removeItem E (Some a) d) (terminal1 (objects d a))))
      \<and> a \<notin> set (conductors (objects (removeItem E (Some a) d) (terminal2 (objects d a))))
      \<and> a \<notin> set (items (removeItem E (Some a) d)))"
proof (intro conjI impI)
  assume "isReadOnly d"
  then show "addItem E item d = d" "removeItem E item d = d"
    by (simp_all add: addItem_def removeItem_def split: option.split)
next
  show "addItem E None d = d" by (simp add: addItem_def)
next
  assume "a \<in> set (items d)"
  then show "addItem E (Some a) d = d" by (simp add: addItem_def)
next
  assume h: "\<not> isReadOnly d \<and> a \<notin> set (items d) \<and> itype (objects d a) = ConductorType"
  then have h1: "\<not> isReadOnly d" and h2: "a \<notin> set (items d)"
    and h3: "itype (objects d a) = ConductorType" by simp_all
  from addItem_conductor [OF h1 h2 h3, of E]
  show "a \<in> set (conductors (objects (addItem E (Some a) d) (terminal1 (objects d a))))"
    "a \<in> set (conductors (objects (addItem E (Some a) d) (terminal2 (objects d a))))"
    "a \<in> set (items (addItem E (Some a) d))" by simp_all
next
  assume h: "\<not> isReadOnly d \<and> itype (objects d a) = ConductorType"
  then have h1: "\<not> isReadOnly d" and h3: "itype (objects d a) = ConductorType" by simp_all
  from removeItem_conductor [OF h1 h3, of E]
  show "a \<notin> set (conductors (objects (removeItem E (Some a) d) (terminal1 (objects d a))))"
    "a \<notin> set (conductors (objects (removeItem E (Some a) d) (terminal2 (objects d a))))"
    "a \<notin> set (items (removeItem E (Some a) d))" by simp_all
qed


text \<open>
  An example: two elements (1, selected, and 3) with one terminal each (2 and 4) are on
  the diagram; conductor 5 between the two terminals is not yet.
\<close>

definition plain_item :: "unit item" where
  "plain_item = \<lparr>itype = OtherType, isSelected = False, zValue = 0, parentItem = 0,
     descendants = [], uuid = [], terminals = [], terminal1 = 0, terminal2 = 0,
     conductors = [], content = ()\<rparr>"

definition example_objects :: "addr \<Rightarrow> unit item" where
  "example_objects a =
     (if a = 1 then plain_item\<lparr>itype := ElementType, isSelected := True, zValue := 10,
                               descendants := [2], terminals := [2]\<rparr>
      else if a = 2 then plain_item\<lparr>itype := TerminalType, zValue := 1000, parentItem := 1\<rparr>
      else if a = 3 then plain_item\<lparr>itype := ElementType, zValue := 10,
                                    descendants := [4], terminals := [4]\<rparr>
      else if a = 4 then plain_item\<lparr>itype := TerminalType, zValue := 1000, parentItem := 3\<rparr>
      else if a = 5 then plain_item\<lparr>itype := ConductorType, zValue := 11,
                                    terminal1 := 2, terminal2 := 4\<rparr>
      else plain_item)"

definition example_diagram :: "(unit, unit, unit, unit) diagram" where
  "example_diagram = \<lparr>border_and_titleblock = (), defaultConductorProperties = (),
     m_conductors_autonum_name = [], m_freeze_new_elements = False,
     m_freeze_new_conductors = False, m_elmt_unitfolio_max = [], m_elmt_tenfolio_max = [],
     m_elmt_hundredfolio_max = [], m_cnd_unitfolio_max = [], m_cnd_tenfolio_max = [],
     m_cnd_hundredfolio_max = [], items = [1, 2, 3, 4], objects = example_objects,
     fresh = 6, isReadOnly = False, dataBase = [1, 3], collection = (),
     undoCommands = [], undoIndex = 0\<rparr>"

definition example_scene_env :: "unit scene_env" where
  "example_scene_env = \<lparr>calculateTextItemPosition = (\<lambda>objs a. ()),
     unlinkAllElements = (\<lambda>objs a b. ())\<rparr>"

theorem addItem_removeItem_witness:
  "isReadOnly (example_diagram\<lparr>isReadOnly := True\<rparr>)
   \<and> addItem example_scene_env (Some 5) (example_diagram\<lparr>isReadOnly := True\<rparr>)
       = example_diagram\<lparr>isReadOnly := True\<rparr>
   \<and> removeItem example_scene_env (Some 5) (example_diagram\<lparr>isReadOnly := True\<rparr>)
       = example_diagram\<lparr>isReadOnly := True\<rparr>
   \<and> 1 \<in> set (items example_diagram)
   \<and> addItem example_scene_env (Some 1) example_diagram = example_diagram
   \<and> \<not> isReadOnly example_diagram
   \<and> 5 \<notin> set (items example_diagram)
   \<and> itype (objects example_diagram 5) = ConductorType
   \<and> 5 \<in> set (conductors (objects (addItem example_scene_env (Some 5) example_diagram) 2))
   \<and> 5 \<in> set (conductors (objects (addItem example_scene_env (Some 5) example_diagram) 4))
   \<and> 5 \<notin> set (conductors (objects (removeItem example_scene_env (Some 5) example_diagram) 2))
   \<and> 5 \<notin> set (conductors (objects (removeItem example_scene_env (Some 5) example_diagram) 4))
   \<and> \<not> isReadOnly (addItem example_scene_env (Some 5) example_diagram)
   \<and> itype (objects (addItem example_scene_env (Some 5) example_diagram) 5) = ConductorType
   \<and> 5 \<notin> set (conductors (objects (removeItem example_scene_env (Some 5)
                 (addItem example_scene_env (Some 5) example_diagram)) 2))
   \<and> 5 \<notin> set (conductors (objects (removeItem example_scene_env (Some 5)
                 (addItem example_scene_env (Some 5) example_diagram)) 4))
   \<and> 5 \<notin> set (items (removeItem example_scene_env (Some 5)
                 (addItem example_scene_env (Some 5) example_diagram)))"
proof -
  let ?added = "addItem example_scene_env (Some 5) example_diagram"
  have b: "\<not> isReadOnly ?added \<and> itype (objects ?added 5) = ConductorType"
    by (simp add: addItem_def QGraphicsScene_addItem_def Terminal_addConductor_def Let_def
        example_diagram_def example_objects_def plain_item_def)
  have f: "terminal1 (objects ?added 5) = 2" "terminal2 (objects ?added 5) = 4"
    by (simp_all add: addItem_def QGraphicsScene_addItem_def Terminal_addConductor_def Let_def
        example_diagram_def example_objects_def plain_item_def)
  from addItem_removeItem [of ?added example_scene_env "Some 5" 5] b
  have r4: "5 \<notin> set (conductors (objects (removeItem example_scene_env (Some 5) ?added)
               (terminal1 (objects ?added 5))))
      \<and> 5 \<notin> set (conductors (objects (removeItem example_scene_env (Some 5) ?added)
               (terminal2 (objects ?added 5))))
      \<and> 5 \<notin> set (items (removeItem example_scene_env (Some 5) ?added))"
    by blast
  let ?ro = "example_diagram\<lparr>isReadOnly := True\<rparr>"
  have a1: "isReadOnly ?ro" by simp
  have a2: "1 \<in> set (items example_diagram)" by (simp add: example_diagram_def)
  have a3: "\<not> isReadOnly example_diagram \<and> 5 \<notin> set (items example_diagram)
      \<and> itype (objects example_diagram 5) = ConductorType"
    by (simp add: example_diagram_def example_objects_def plain_item_def)
  have e: "terminal1 (objects example_diagram 5) = 2" "terminal2 (objects example_diagram 5) = 4"
    by (simp_all add: example_diagram_def example_objects_def plain_item_def)
  from addItem_removeItem [of ?ro example_scene_env "Some 5" 5] a1
  have r1: "addItem example_scene_env (Some 5) ?ro = ?ro \<and> removeItem example_scene_env (Some 5) ?ro = ?ro"
    by blast
  from addItem_removeItem [of example_diagram example_scene_env "Some 1" 1] a2
  have r2: "addItem example_scene_env (Some 1) example_diagram = example_diagram"
    by blast
  from addItem_removeItem [of example_diagram example_scene_env "Some 5" 5] a3
  have r3: "5 \<in> set (conductors (objects (addItem example_scene_env (Some 5) example_diagram)
               (terminal1 (objects example_diagram 5))))
      \<and> 5 \<in> set (conductors (objects (addItem example_scene_env (Some 5) example_diagram)
               (terminal2 (objects example_diagram 5))))
      \<and> 5 \<notin> set (conductors (objects (removeItem example_scene_env (Some 5) example_diagram)
               (terminal1 (objects example_diagram 5))))
      \<and> 5 \<notin> set (conductors (objects (removeItem example_scene_env (Some 5) example_diagram)
               (terminal2 (objects example_diagram 5))))"
    by blast
  from a1 a2 a3 b r1 r2 r3 [unfolded e] r4 [unfolded f] show ?thesis by blast
qed


section \<open>Changing the depth of the selection\<close>

datatype DepthOption = BringForward | Raise | Lower | SendBackward

text \<open>
  Modelled from the spec: \<open>DiagramContent\<close> is not among the sources at hand. For the
  filter \<open>SelectedOnly | Elements | Shapes | Images\<close> its \<open>items\<close> are the selected
  elements, shapes and images of the diagram.
\<close>

definition selectedDepthItems :: "('b, 'p, 'x, 'c) diagram \<Rightarrow> addr list" where
  "selectedDepthItems d =
     filter (\<lambda>a. isSelected (objects d a)
                 \<and> itype (objects d a) \<in> {ElementType, QetShapeItemType, DiagramImageItemType})
            (items d)"

text \<open>Doing a command does its children in order; \<open>QUndoStack::push\<close> drops the commands
  that were undone, appends the command and does it.\<close>

fun redo :: "undo_command \<Rightarrow> (addr \<Rightarrow> 'x item) \<Rightarrow> (addr \<Rightarrow> 'x item)" where
  "redo (QPropertyUndoCommand obj name old_value new_value) objs =
     (if name = ''z'' then objs(obj := (objs obj)\<lparr>zValue := new_value\<rparr>) else objs)"
| "redo (QUndoCommand text children) objs = fold redo children objs"

definition push :: "undo_command \<Rightarrow> ('b, 'p, 'x, 'c) diagram \<Rightarrow> ('b, 'p, 'x, 'c) diagram" where
  "push cmd d =
     d\<lparr>undoCommands := take (undoIndex d) (undoCommands d) @ [cmd],
       undoIndex := undoIndex d + 1,
       objects := redo cmd (objects d)\<rparr>"

text \<open>The loop that computes \<open>maxz\<close> and \<open>minz\<close>. \<open>Terminal::Z\<close> is declared in a header
  that is not among the sources at hand; it is the parameter \<open>terminal_Z\<close>.\<close>

definition zRange :: "real \<Rightarrow> ('b, 'p, 'x, 'c) diagram \<Rightarrow> real \<times> real" where
  "zRange terminal_Z d =
     fold (\<lambda>a (maxz, minz).
             let z = zValue (objects d a)
             in if z \<ge> terminal_Z - 2 then (maxz, minz) else (max maxz z, min minz z))
          (items d) (0, 0)"

definition changeZValue ::
  "real \<Rightarrow> DepthOption \<Rightarrow> ('b, 'p, 'x, 'c) diagram \<Rightarrow> ('b, 'p, 'x, 'c) diagram" where
  "changeZValue terminal_Z option d =
     (let list = selectedDepthItems d;
          (maxz, minz) = zRange terminal_Z d;
          z = (\<lambda>qgo. zValue (objects d qgo));
          children =
            (case option of
               Raise \<Rightarrow>
                 map (\<lambda>qgo. QPropertyUndoCommand qgo ''z'' (z qgo) (z qgo + 1))
                     (filter (\<lambda>qgo. z qgo < terminal_Z - 2) list)
             | Lower \<Rightarrow>
                 map (\<lambda>qgo. QPropertyUndoCommand qgo ''z'' (z qgo) (z qgo - 1))
                     (filter (\<lambda>qgo. z qgo < terminal_Z - 2) list)
             | BringForward \<Rightarrow>
                 map (\<lambda>qgo. QPropertyUndoCommand qgo ''z'' (z qgo) (maxz + 1)) list
             | SendBackward \<Rightarrow>
                 map (\<lambda>qgo. QPropertyUndoCommand qgo ''z'' (z qgo) (minz - 1)) list)
      in if children \<noteq> []
         then push (QUndoCommand ''Modifier la profondeur'' children) d
         else d)"


lemma fold_redo_z:
  "fold redo (map (\<lambda>a. QPropertyUndoCommand a ''z'' (g a) (f a)) xs) objs
     = (\<lambda>a. if a \<in> set xs then (objs a)\<lparr>zValue := f a\<rparr> else objs a)"
proof (induction xs arbitrary: objs)
  case Nil
  then show ?case by simp
next
  case (Cons x xs)
  show ?case by (simp add: Cons.IH fun_eq_iff)
qed

text \<open>The items \<open>Raise\<close> and \<open>Lower\<close> may move: selected elements, shapes and images of
  the diagram whose z-value is below \<open>Terminal::Z - 2\<close>.\<close>

definition eligible :: "real \<Rightarrow> ('b, 'p, 'x, 'c) diagram \<Rightarrow> addr \<Rightarrow> bool" where
  "eligible terminal_Z d a \<longleftrightarrow>
     a \<in> set (items d) \<and> isSelected (objects d a)
     \<and> itype (objects d a) \<in> {ElementType, QetShapeItemType, DiagramImageItemType}
     \<and> zValue (objects d a) < terminal_Z - 2"

lemma changeZValue_by:
  assumes "option = Raise \<and> s = 1 \<or> option = Lower \<and> s = - 1"
  shows "changeZValue terminal_Z option d =
           (if map (\<lambda>a. QPropertyUndoCommand a ''z'' (zValue (objects d a))
                                   (zValue (objects d a) + s))
                 (filter (\<lambda>a. zValue (objects d a) < terminal_Z - 2) (selectedDepthItems d)) \<noteq> []
            then push (QUndoCommand ''Modifier la profondeur''
                   (map (\<lambda>a. QPropertyUndoCommand a ''z'' (zValue (objects d a))
                                   (zValue (objects d a) + s))
                     (filter (\<lambda>a. zValue (objects d a) < terminal_Z - 2) (selectedDepthItems d)))) d
            else d)"
  using assms unfolding changeZValue_def
  by (auto simp: Let_def split: prod.splits)

lemma eligible_iff:
  "a \<in> set (filter (\<lambda>a. zValue (objects d a) < terminal_Z - 2) (selectedDepthItems d))
     \<longleftrightarrow> eligible terminal_Z d a"
  by (auto simp: eligible_def selectedDepthItems_def)

lemma no_eligible_iff:
  "filter (\<lambda>a. zValue (objects d a) < terminal_Z - 2) (selectedDepthItems d) = []
     \<longleftrightarrow> (\<forall>a. \<not> eligible terminal_Z d a)"
proof -
  have "filter (\<lambda>a. zValue (objects d a) < terminal_Z - 2) (selectedDepthItems d) = []
     \<longleftrightarrow> (\<forall>a. a \<notin> set (filter (\<lambda>a. zValue (objects d a) < terminal_Z - 2) (selectedDepthItems d)))"
    by (metis all_not_in_conv set_empty)
  then show ?thesis unfolding eligible_iff .
qed

text \<open>
  Claim C5. With option \<open>Raise\<close> or \<open>Lower\<close>, \<open>changeZValue\<close> changes the z-value of
  eligible items only, changes no other field of any object, and leaves all of the
  diagram but the objects and the undo stack as it is. When an eligible item exists, the
  new state is the old one after pushing one command on the undo stack, and every change
  of a z-value is a child of that command, from the old value to the new one. When none
  exists, nothing is pushed and the state is the same.
\<close>

theorem changeZValue_frame:
  assumes "option = Raise \<or> option = Lower"
  shows "(\<forall>a. zValue (objects (changeZValue terminal_Z option d) a) \<noteq> zValue (objects d a)
              \<longrightarrow> eligible terminal_Z d a)
       \<and> (\<forall>a. (objects (changeZValue terminal_Z option d) a)\<lparr>zValue := zValue (objects d a)\<rparr>
              = objects d a)
       \<and> (changeZValue terminal_Z option d)\<lparr>objects := objects d,
             undoCommands := undoCommands d, undoIndex := undoIndex d\<rparr> = d
       \<and> ((\<exists>a. eligible terminal_Z d a) \<longrightarrow>
            (\<exists>children.
               changeZValue terminal_Z option d
                 = push (QUndoCommand ''Modifier la profondeur'' children) d
               \<and> undoCommands (changeZValue terminal_Z option d)
                   = take (undoIndex d) (undoCommands d)
                     @ [QUndoCommand ''Modifier la profondeur'' children]
               \<and> (\<forall>a. zValue (objects (changeZValue terminal_Z option d) a) \<noteq> zValue (objects d a)
                     \<longrightarrow> QPropertyUndoCommand a ''z'' (zValue (objects d a))
                           (zValue (objects (changeZValue terminal_Z option d) a)) \<in> set children)))
       \<and> (\<not> (\<exists>a. eligible terminal_Z d a) \<longrightarrow> changeZValue terminal_Z option d = d)"
proof -
  obtain s :: real where s: "option = Raise \<and> s = 1 \<or> option = Lower \<and> s = - 1"
    using assms by auto
  let ?xs = "filter (\<lambda>a. zValue (objects d a) < terminal_Z - 2) (selectedDepthItems d)"
  let ?children = "map (\<lambda>a. QPropertyUndoCommand a ''z'' (zValue (objects d a))
                                   (zValue (objects d a) + s)) ?xs"
  let ?cmd = "QUndoCommand ''Modifier la profondeur'' ?children"
  let ?d' = "changeZValue terminal_Z option d"
  have d': "?d' = (if ?children \<noteq> [] then push ?cmd d else d)"
    using s by (rule changeZValue_by)
  have objs_push: "objects (push ?cmd d)
      = (\<lambda>a. if a \<in> set ?xs then (objects d a)\<lparr>zValue := zValue (objects d a) + s\<rparr> else objects d a)"
    by (simp add: push_def fold_redo_z)
  have objs: "objects ?d' a
      = (if eligible terminal_Z d a then (objects d a)\<lparr>zValue := zValue (objects d a) + s\<rparr>
         else objects d a)" for a
  proof (cases "?children = []")
    case True
    then have "?xs = []" by simp
    then have "\<not> eligible terminal_Z d a" by (simp only: no_eligible_iff) simp
    with True d' show ?thesis by simp
  next
    case False
    with d' have "objects ?d' a = objects (push ?cmd d) a" by simp
    also have "\<dots> = (if a \<in> set ?xs then (objects d a)\<lparr>zValue := zValue (objects d a) + s\<rparr>
         else objects d a)" by (simp only: objs_push)
    finally show ?thesis by (simp only: eligible_iff)
  qed
  have c1: "\<forall>a. zValue (objects ?d' a) \<noteq> zValue (objects d a) \<longrightarrow> eligible terminal_Z d a"
    by (simp add: objs)
  have c2: "\<forall>a. (objects ?d' a)\<lparr>zValue := zValue (objects d a)\<rparr> = objects d a"
    by (simp add: objs)
  have c3: "?d'\<lparr>objects := objects d, undoCommands := undoCommands d, undoIndex := undoIndex d\<rparr> = d"
    unfolding d' by (simp add: push_def)
  have c4: "\<exists>children. ?d' = push (QUndoCommand ''Modifier la profondeur'' children) d
               \<and> undoCommands ?d' = take (undoIndex d) (undoCommands d)
                     @ [QUndoCommand ''Modifier la profondeur'' children]
               \<and> (\<forall>a. zValue (objects ?d' a) \<noteq> zValue (objects d a)
                     \<longrightarrow> QPropertyUndoCommand a ''z'' (zValue (objects d a))
                           (zValue (objects ?d' a)) \<in> set children)"
    if "\<exists>a. eligible terminal_Z d a"
  proof (intro exI conjI)
    from that have "?xs \<noteq> []" by (simp only: no_eligible_iff) simp
    then have ne: "?children \<noteq> []" by simp
    with d' show p: "?d' = push ?cmd d" by simp
    show "undoCommands ?d' = take (undoIndex d) (undoCommands d) @ [?cmd]"
      unfolding p by (simp add: push_def)
    show "\<forall>a. zValue (objects ?d' a) \<noteq> zValue (objects d a)
           \<longrightarrow> QPropertyUndoCommand a ''z'' (zValue (objects d a)) (zValue (objects ?d' a))
                 \<in> set ?children"
    proof (intro allI impI)
      fix a assume ch: "zValue (objects ?d' a) \<noteq> zValue (objects d a)"
      with c1 have el: "eligible terminal_Z d a" by blast
      then have "a \<in> set ?xs" by (simp only: eligible_iff)
      moreover from el have "zValue (objects ?d' a) = zValue (objects d a) + s" by (simp add: objs)
      ultimately show "QPropertyUndoCommand a ''z'' (zValue (objects d a)) (zValue (objects ?d' a))
                 \<in> set ?children" by (simp add: image_iff)
    qed
  qed
  have c5: "?d' = d" if "\<not> (\<exists>a. eligible terminal_Z d a)"
  proof -
    from that have "?xs = []" by (simp only: no_eligible_iff) simp
    with d' show ?thesis by simp
  qed
  from c1 c2 c3 c4 c5 show ?thesis by blast
qed


theorem changeZValue_frame_witness:
  "(Raise = Raise \<or> Raise = Lower)
   \<and> eligible 1000 example_diagram 1
   \<and> (\<exists>children.
         changeZValue 1000 Raise example_diagram
           = push (QUndoCommand ''Modifier la profondeur'' children) example_diagram
         \<and> undoCommands (changeZValue 1000 Raise example_diagram)
             = take (undoIndex example_diagram) (undoCommands example_diagram)
               @ [QUndoCommand ''Modifier la profondeur'' children])
   \<and> (changeZValue 1000 Raise example_diagram)\<lparr>objects := objects example_diagram,
         undoCommands := undoCommands example_diagram,
         undoIndex := undoIndex example_diagram\<rparr> = example_diagram
   \<and> (Lower = Raise \<or> Lower = Lower)
   \<and> \<not> (\<exists>a. eligible 1000 (example_diagram\<lparr>items := []\<rparr>) a)
   \<and> changeZValue 1000 Lower (example_diagram\<lparr>items := []\<rparr>) = example_diagram\<lparr>items := []\<rparr>"
proof -
  have h1: "Raise = Raise \<or> Raise = Lower" by simp
  have h2: "eligible 1000 example_diagram 1"
    by (simp add: eligible_def example_diagram_def example_objects_def plain_item_def)
  have h3: "Lower = Raise \<or> Lower = Lower" by simp
  have h4: "\<not> (\<exists>a. eligible 1000 (example_diagram\<lparr>items := []\<rparr>) a)"
    by (simp add: eligible_def)
  from changeZValue_frame [OF h1, of 1000 example_diagram] h2
  have r1: "(\<exists>children.
         changeZValue 1000 Raise example_diagram
           = push (QUndoCommand ''Modifier la profondeur'' children) example_diagram
         \<and> undoCommands (changeZValue 1000 Raise example_diagram)
             = take (undoIndex example_diagram) (undoCommands example_diagram)
               @ [QUndoCommand ''Modifier la profondeur'' children])
     \<and> (changeZValue 1000 Raise example_diagram)\<lparr>objects := objects example_diagram,
         undoCommands := undoCommands example_diagram,
         undoIndex := undoIndex example_diagram\<rparr> = example_diagram"
    by blast
  from changeZValue_frame [OF h3, of 1000 "example_diagram\<lparr>items := []\<rparr>"] h4
  have r2: "changeZValue 1000 Lower (example_diagram\<lparr>items := []\<rparr>) = example_diagram\<lparr>items := []\<rparr>"
    by blast
  from h1 h2 h3 h4 r1 r2 show ?thesis by blast
qed


section \<open>Export to XML\<close>

text \<open>\<open>setAttribute\<close> with an \<open>int\<close> value writes the number in decimal.\<close>

definition number_int :: "int \<Rightarrow> string" where
  "number_int i = (if i < 0 then CHR ''-'' # number (nat (- i)) else number (nat i))"

text \<open>
  \<open>Diagram::toXml\<close> calls the \<open>toXml\<close> methods of the border and title block, of the
  conductor properties and of the item classes, and \<open>QETApp::projectId\<close>. None of them is
  among the sources at hand; they are parameters. An element and a conductor are written
  with the table of terminal ids, which they may extend.
\<close>

record ('b, 'p, 'x) xml_writers =
  titleBlockToXml :: "'b \<Rightarrow> QDomNode \<Rightarrow> QDomNode"
  borderToXml :: "'b \<Rightarrow> QDomNode \<Rightarrow> QDomNode"
  propertiesToXml :: "'p \<Rightarrow> QDomNode \<Rightarrow> QDomNode"
  projectId :: int
  elementToXml :: "(addr \<Rightarrow> 'x item) \<Rightarrow> addr \<Rightarrow> (addr \<rightharpoonup> int) \<Rightarrow> QDomNode \<times> (addr \<rightharpoonup> int)"
  conductorToXml :: "(addr \<Rightarrow> 'x item) \<Rightarrow> addr \<Rightarrow> (addr \<rightharpoonup> int) \<Rightarrow> QDomNode \<times> (addr \<rightharpoonup> int)"
  textToXml :: "(addr \<Rightarrow> 'x item) \<Rightarrow> addr \<Rightarrow> QDomNode"
  imageToXml :: "(addr \<Rightarrow> 'x item) \<Rightarrow> addr \<Rightarrow> QDomNode"
  shapeToXml :: "(addr \<Rightarrow> 'x item) \<Rightarrow> addr \<Rightarrow> QDomNode"
  tableToXml :: "(addr \<Rightarrow> 'x item) \<Rightarrow> addr \<Rightarrow> QDomNode"
  terminalStripToXml :: "(addr \<Rightarrow> 'x item) \<Rightarrow> addr list \<Rightarrow> QDomNode"

text \<open>
  The block that writes the folio sequentials of the elements and the one for the
  conductors differ in the first part of their tag names only, here \<open>kind\<close>.
\<close>

definition autonumFolioSequentialsToXml ::
  "string \<Rightarrow> folio_hash \<Rightarrow> folio_hash \<Rightarrow> folio_hash \<Rightarrow> QDomNode \<Rightarrow> QDomNode" where
  "autonumFolioSequentialsToXml kind unitfolio_max tenfolio_max hundredfolio_max dom_root =
     (if unitfolio_max \<noteq> [] \<or> tenfolio_max \<noteq> [] \<or> hundredfolio_max \<noteq> [] then
        let foliosequential = createElement (kind @ ''autonumfoliosequentials'');
            foliosequential =
              (if unitfolio_max \<noteq> [] then
                 appendChild foliosequential
                   (folioSequentialsToXml unitfolio_max (createElement (kind @ ''unitfolioseq''))
                      ''sequf_'' ''unitfolioseq'')
               else foliosequential);
            foliosequential =
              (if tenfolio_max \<noteq> [] then
                 appendChild foliosequential
                   (folioSequentialsToXml tenfolio_max (createElement (kind @ ''tenfolioseq''))
                      ''seqtf_'' ''tenfolioseq'')
               else foliosequential);
            foliosequential =
              (if hundredfolio_max \<noteq> [] then
                 appendChild foliosequential
                   (folioSequentialsToXml hundredfolio_max
                      (createElement (kind @ ''hundredfolioseq'')) ''seqhf_'' ''hundredfolioseq'')
               else foliosequential)
        in appendChild dom_root foliosequential
      else dom_root)"

definition propertiesOfDiagramToXml ::
  "('b, 'p, 'x) xml_writers \<Rightarrow> ('b, 'p, 'x, 'c) diagram \<Rightarrow> QDomNode \<Rightarrow> QDomNode" where
  "propertiesOfDiagramToXml W d dom_root =
     (let dom_root = titleBlockToXml W (border_and_titleblock d) dom_root;
          dom_root = borderToXml W (border_and_titleblock d) dom_root;
          default_conductor =
            propertiesToXml W (defaultConductorProperties d) (createElement ''defaultconductor'');
          dom_root = appendChild dom_root default_conductor;
          dom_root =
            (if m_conductors_autonum_name d \<noteq> []
             then setAttribute ''conductorAutonum'' (m_conductors_autonum_name d) dom_root
             else dom_root);
          dom_root =
            setAttribute ''freezeNewElement''
              (if m_freeze_new_elements d then ''true'' else ''false'') dom_root;
          dom_root =
            setAttribute ''freezeNewConductor''
              (if m_freeze_new_conductors d then ''true'' else ''false'') dom_root;
          dom_root =
            autonumFolioSequentialsToXml ''element'' (m_elmt_unitfolio_max d)
              (m_elmt_tenfolio_max d) (m_elmt_hundredfolio_max d) dom_root
      in autonumFolioSequentialsToXml ''conductor'' (m_cnd_unitfolio_max d)
           (m_cnd_tenfolio_max d) (m_cnd_hundredfolio_max d) dom_root)"

text \<open>The seven lists that the loop over \<open>items()\<close> fills, and the \<open>switch\<close> of its
  body.\<close>

record xml_lists =
  list_elements :: "addr list"
  list_conductors :: "addr list"
  list_texts :: "addr list"
  list_images :: "addr list"
  list_shapes :: "addr list"
  table_vector :: "addr list"
  strip_vector :: "addr list"

definition no_lists :: xml_lists where
  "no_lists = \<lparr>list_elements = [], list_conductors = [], list_texts = [], list_images = [],
     list_shapes = [], table_vector = [], strip_vector = []\<rparr>"

definition checkItem ::
  "bool \<Rightarrow> ('b, 'p, 'x, 'c) diagram \<Rightarrow> addr \<Rightarrow> xml_lists \<Rightarrow> xml_lists" where
  "checkItem whole_content d qgi L =
     (case itype (objects d qgi) of
        ElementType \<Rightarrow>
          if whole_content \<or> isSelected (objects d qgi)
          then L\<lparr>list_elements := list_elements L @ [qgi]\<rparr> else L
      | ConductorType \<Rightarrow>
          if whole_content then L\<lparr>list_conductors := list_conductors L @ [qgi]\<rparr>
          else if isSelected (objects d (parentItem (objects d (terminal1 (objects d qgi)))))
                  \<and> isSelected (objects d (parentItem (objects d (terminal2 (objects d qgi)))))
          then L\<lparr>list_conductors := list_conductors L @ [qgi]\<rparr> else L
      | DiagramImageItemType \<Rightarrow>
          if whole_content \<or> isSelected (objects d qgi)
          then L\<lparr>list_images := list_images L @ [qgi]\<rparr> else L
      | IndependentTextItemType \<Rightarrow>
          if whole_content \<or> isSelected (objects d qgi)
          then L\<lparr>list_texts := list_texts L @ [qgi]\<rparr> else L
      | QetShapeItemType \<Rightarrow>
          if whole_content \<or> isSelected (objects d qgi)
          then L\<lparr>list_shapes := list_shapes L @ [qgi]\<rparr> else L
      | QetGraphicsTableItemType \<Rightarrow>
          if whole_content \<or> isSelected (objects d qgi)
          then L\<lparr>table_vector := table_vector L @ [qgi]\<rparr> else L
      | TerminalStripItemType \<Rightarrow>
          if whole_content \<or> isSelected (objects d qgi)
          then L\<lparr>strip_vector := strip_vector L @ [qgi]\<rparr> else L
      | _ \<Rightarrow> L)"

text \<open>
  The second half of \<open>toXml\<close>: one section per non-empty list, appended to the root. The
  document is modelled by its root element: \<open>document.appendChild(dom_root)\<close> shares
  the node, so what is appended to \<open>dom_root\<close> later is in the document.
\<close>

definition appendWithTable ::
  "(addr \<Rightarrow> (addr \<rightharpoonup> int) \<Rightarrow> QDomNode \<times> (addr \<rightharpoonup> int)) \<Rightarrow> addr list
   \<Rightarrow> QDomNode \<times> (addr \<rightharpoonup> int) \<Rightarrow> QDomNode \<times> (addr \<rightharpoonup> int)" where
  "appendWithTable item_toXml xs start =
     fold (\<lambda>item (dom, table_adr_id).
             let (xml, table_adr_id) = item_toXml item table_adr_id
             in (appendChild dom xml, table_adr_id))
          xs start"

definition itemsToXml ::
  "('b, 'p, 'x) xml_writers \<Rightarrow> (addr \<Rightarrow> 'x item) \<Rightarrow> xml_lists \<Rightarrow> QDomNode \<Rightarrow> QDomNode" where
  "itemsToXml W objs L dom_root =
     (let table_adr_id = Map.empty;
          (dom_root, table_adr_id) =
            (if list_elements L \<noteq> [] then
               let (dom_elements, table_adr_id) =
                     appendWithTable (elementToXml W objs) (list_elements L)
                       (createElement ''elements'', table_adr_id)
               in (appendChild dom_root dom_elements, table_adr_id)
             else (dom_root, table_adr_id));
          (dom_root, table_adr_id) =
            (if list_conductors L \<noteq> [] then
               let (dom_conductors, table_adr_id) =
                     appendWithTable (conductorToXml W objs) (list_conductors L)
                       (createElement ''conductors'', table_adr_id)
               in (appendChild dom_root dom_conductors, table_adr_id)
             else (dom_root, table_adr_id));
          dom_root =
            (if list_texts L \<noteq> [] then
               appendChild dom_root
                 (fold (\<lambda>dti dom. appendChild dom (textToXml W objs dti)) (list_texts L)
                    (createElement ''inputs''))
             else dom_root);
          dom_root =
            (if list_images L \<noteq> [] then
               appendChild dom_root
                 (fold (\<lambda>dii dom. appendChild dom (imageToXml W objs dii)) (list_images L)
                    (createElement ''images''))
             else dom_root);
          dom_root =
            (if list_shapes L \<noteq> [] then
               appendChild dom_root
                 (fold (\<lambda>dii dom. appendChild dom (shapeToXml W objs dii)) (list_shapes L)
                    (createElement ''shapes''))
             else dom_root);
          dom_root =
            (if length (table_vector L) \<noteq> 0 then
               appendChild dom_root
                 (fold (\<lambda>table dom. appendChild dom (tableToXml W objs table)) (table_vector L)
                    (createElement ''tables''))
             else dom_root)
      in if strip_vector L \<noteq> []
         then appendChild dom_root (terminalStripToXml W objs (strip_vector L))
         else dom_root)"

definition toXml ::
  "('b, 'p, 'x) xml_writers \<Rightarrow> bool \<Rightarrow> ('b, 'p, 'x, 'c) diagram \<Rightarrow> QDomNode" where
  "toXml W whole_content d =
     (let dom_root = createElement ''diagram'';
          dom_root =
            (if whole_content then propertiesOfDiagramToXml W d dom_root
             else setAttribute ''projectId'' (number_int (projectId W)) dom_root)
      in if items d = [] then dom_root
         else itemsToXml W (objects d) (fold (checkItem whole_content d) (items d) no_lists)
                dom_root)"

text \<open>Writers for the examples.\<close>

definition example_writers :: "(unit, unit, unit) xml_writers" where
  "example_writers = \<lparr>titleBlockToXml = (\<lambda>b dom. setAttribute ''title'' ''Folio'' dom),
     borderToXml = (\<lambda>b dom. setAttribute ''cols'' ''17'' dom),
     propertiesToXml = (\<lambda>p dom. setAttribute ''type'' ''multi'' dom),
     projectId = 0,
     elementToXml = (\<lambda>objs a t. (setAttribute ''uuid'' (uuid (objs a)) (createElement ''element''), t)),
     conductorToXml = (\<lambda>objs a t. (createElement ''conductor'', t)),
     textToXml = (\<lambda>objs a. createElement ''input''),
     imageToXml = (\<lambda>objs a. createElement ''image''),
     shapeToXml = (\<lambda>objs a. createElement ''shape''),
     tableToXml = (\<lambda>objs a. createElement ''table''),
     terminalStripToXml = (\<lambda>objs as. createElement ''terminal_strip_items'')\<rparr>"


text \<open>
  What the export of a selection is expected to be, written without loops: the XML of a
  list of items, with the table of terminal ids passed along; a section, present when the
  list is not empty; and the sections in the order \<open>elements\<close>, \<open>conductors\<close>, \<open>inputs\<close>,
  \<open>images\<close>, \<open>shapes\<close>, \<open>tables\<close>, terminal strips.
\<close>

fun toXmlAll ::
  "(addr \<Rightarrow> (addr \<rightharpoonup> int) \<Rightarrow> QDomNode \<times> (addr \<rightharpoonup> int)) \<Rightarrow> addr list \<Rightarrow> (addr \<rightharpoonup> int)
   \<Rightarrow> QDomNode list \<times> (addr \<rightharpoonup> int)" where
  "toXmlAll item_toXml [] table_adr_id = ([], table_adr_id)"
| "toXmlAll item_toXml (item # rest) table_adr_id =
     (let (xml, table_adr_id) = item_toXml item table_adr_id;
          (xmls, table_adr_id) = toXmlAll item_toXml rest table_adr_id
      in (xml # xmls, table_adr_id))"

definition xml_section :: "string \<Rightarrow> addr list \<Rightarrow> QDomNode list \<Rightarrow> QDomNode list" where
  "xml_section tag xs xmls = (if xs = [] then [] else [QDomElement tag [] xmls])"

lemma checkItem_fields:
  "list_elements (checkItem w d x L) = list_elements L
     @ filter (\<lambda>a. itype (objects d a) = ElementType \<and> (w \<or> isSelected (objects d a))) [x]"
  "list_conductors (checkItem w d x L) = list_conductors L
     @ filter (\<lambda>a. itype (objects d a) = ConductorType
             \<and> (w \<or> isSelected (objects d (parentItem (objects d (terminal1 (objects d a)))))
                  \<and> isSelected (objects d (parentItem (objects d (terminal2 (objects d a))))))) [x]"
  "list_texts (checkItem w d x L) = list_texts L
     @ filter (\<lambda>a. itype (objects d a) = IndependentTextItemType
             \<and> (w \<or> isSelected (objects d a))) [x]"
  "list_images (checkItem w d x L) = list_images L
     @ filter (\<lambda>a. itype (objects d a) = DiagramImageItemType
             \<and> (w \<or> isSelected (objects d a))) [x]"
  "list_shapes (checkItem w d x L) = list_shapes L
     @ filter (\<lambda>a. itype (objects d a) = QetShapeItemType \<and> (w \<or> isSelected (objects d a))) [x]"
  "table_vector (checkItem w d x L) = table_vector L
     @ filter (\<lambda>a. itype (objects d a) = QetGraphicsTableItemType
             \<and> (w \<or> isSelected (objects d a))) [x]"
  "strip_vector (checkItem w d x L) = strip_vector L
     @ filter (\<lambda>a. itype (objects d a) = TerminalStripItemType
             \<and> (w \<or> isSelected (objects d a))) [x]"
  by (cases "itype (objects d x)"; simp add: checkItem_def)+

lemma fold_checkItem:
  "fold (checkItem w d) xs L =
     \<lparr>list_elements = list_elements L
        @ filter (\<lambda>a. itype (objects d a) = ElementType \<and> (w \<or> isSelected (objects d a))) xs,
      list_conductors = list_conductors L
        @ filter (\<lambda>a. itype (objects d a) = ConductorType
             \<and> (w \<or> isSelected (objects d (parentItem (objects d (terminal1 (objects d a)))))
                  \<and> isSelected (objects d (parentItem (objects d (terminal2 (objects d a))))))) xs,
      list_texts = list_texts L
        @ filter (\<lambda>a. itype (objects d a) = IndependentTextItemType
             \<and> (w \<or> isSelected (objects d a))) xs,
      list_images = list_images L
        @ filter (\<lambda>a. itype (objects d a) = DiagramImageItemType
             \<and> (w \<or> isSelected (objects d a))) xs,
      list_shapes = list_shapes L
        @ filter (\<lambda>a. itype (objects d a) = QetShapeItemType \<and> (w \<or> isSelected (objects d a))) xs,
      table_vector = table_vector L
        @ filter (\<lambda>a. itype (objects d a) = QetGraphicsTableItemType
             \<and> (w \<or> isSelected (objects d a))) xs,
      strip_vector = strip_vector L
        @ filter (\<lambda>a. itype (objects d a) = TerminalStripItemType
             \<and> (w \<or> isSelected (objects d a))) xs\<rparr>"
proof (induction xs arbitrary: L)
  case Nil
  then show ?case by simp
next
  case (Cons x xs)
  have "fold (checkItem w d) (x # xs) L = fold (checkItem w d) xs (checkItem w d x L)"
    by simp
  also note Cons.IH [of "checkItem w d x L"]
  finally show ?case
    by (simp add: checkItem_fields)
qed

lemma appendWithTable_eq:
  "appendWithTable f xs (QDomElement t as cs, tb)
     = (QDomElement t as (cs @ fst (toXmlAll f xs tb)), snd (toXmlAll f xs tb))"
proof (induction xs arbitrary: cs tb)
  case Nil
  then show ?case by (simp add: appendWithTable_def)
next
  case (Cons x xs)
  from Cons.IH [of "cs @ [fst (f x tb)]" "snd (f x tb)"] show ?case
    by (simp add: appendWithTable_def split_def Let_def)
qed

lemma fold_appendChild_map:
  "fold (\<lambda>x dom. appendChild dom (g x)) xs (QDomElement t as cs) = QDomElement t as (cs @ map g xs)"
  by (induction xs arbitrary: cs) simp_all

definition item_sections ::
  "('b, 'p, 'x) xml_writers \<Rightarrow> (addr \<Rightarrow> 'x item) \<Rightarrow> xml_lists \<Rightarrow> QDomNode list" where
  "item_sections W objs L =
     (let (elements_xml, table_adr_id) = toXmlAll (elementToXml W objs) (list_elements L) Map.empty;
          (conductors_xml, table_adr_id) =
             toXmlAll (conductorToXml W objs) (list_conductors L)
               (if list_elements L = [] then Map.empty else table_adr_id)
      in xml_section ''elements'' (list_elements L) elements_xml
         @ xml_section ''conductors'' (list_conductors L) conductors_xml
         @ xml_section ''inputs'' (list_texts L) (map (textToXml W objs) (list_texts L))
         @ xml_section ''images'' (list_images L) (map (imageToXml W objs) (list_images L))
         @ xml_section ''shapes'' (list_shapes L) (map (shapeToXml W objs) (list_shapes L))
         @ xml_section ''tables'' (table_vector L) (map (tableToXml W objs) (table_vector L))
         @ (if strip_vector L = [] then [] else [terminalStripToXml W objs (strip_vector L)]))"

lemma itemsToXml_eq:
  "itemsToXml W objs L (QDomElement t as cs) = QDomElement t as (cs @ item_sections W objs L)"
  by (simp add: itemsToXml_def item_sections_def xml_section_def createElement_def
      appendWithTable_eq fold_appendChild_map split_def Let_def)


text \<open>
  Claim C10. With \<open>whole_content = false\<close> the document is the root \<open>diagram\<close>, with the
  project id, and the sections of: the elements, independent texts, images, shapes, tables
  and terminal strips of the scene that are selected themselves, and the conductors of the
  scene for which the parent items of both terminals are selected (whether the conductor
  itself is selected or not).
\<close>

theorem toXml_selection:
  "toXml W False d =
     QDomElement ''diagram'' [(''projectId'', number_int (projectId W))]
       (item_sections W (objects d)
          \<lparr>list_elements =
             filter (\<lambda>a. itype (objects d a) = ElementType \<and> isSelected (objects d a)) (items d),
           list_conductors =
             filter (\<lambda>a. itype (objects d a) = ConductorType
                       \<and> isSelected (objects d (parentItem (objects d (terminal1 (objects d a)))))
                       \<and> isSelected (objects d (parentItem (objects d (terminal2 (objects d a))))))
                    (items d),
           list_texts =
             filter (\<lambda>a. itype (objects d a) = IndependentTextItemType \<and> isSelected (objects d a))
                    (items d),
           list_images =
             filter (\<lambda>a. itype (objects d a) = DiagramImageItemType \<and> isSelected (objects d a))
                    (items d),
           list_shapes =
             filter (\<lambda>a. itype (objects d a) = QetShapeItemType \<and> isSelected (objects d a))
                    (items d),
           table_vector =
             filter (\<lambda>a. itype (objects d a) = QetGraphicsTableItemType \<and> isSelected (objects d a))
                    (items d),
           strip_vector =
             filter (\<lambda>a. itype (objects d a) = TerminalStripItemType \<and> isSelected (objects d a))
                    (items d)\<rparr>)"
proof (cases "items d = []")
  case True
  then show ?thesis
    by (simp add: toXml_def createElement_def item_sections_def xml_section_def)
next
  case False
  then show ?thesis
    by (simp add: toXml_def createElement_def itemsToXml_eq fold_checkItem no_lists_def)
qed

text \<open>
  In the example both elements are selected, so conductor 5 between their terminals is
  exported; conductor 6 is selected itself, but its second terminal belongs to an item
  that is not selected, and it is left out.
\<close>

definition example_selection :: "(unit, unit, unit, unit) diagram" where
  "example_selection =
     example_diagram\<lparr>items := [1, 2, 3, 4, 5, 6],
       objects := example_objects
         (3 := (example_objects 3)\<lparr>isSelected := True\<rparr>,
          6 := plain_item\<lparr>itype := ConductorType, isSelected := True,
                            terminal1 := 2, terminal2 := 8\<rparr>)\<rparr>"

theorem toXml_selection_witness:
  "toXml example_writers False example_selection =
     QDomElement ''diagram'' [(''projectId'', ''0'')]
       [QDomElement ''elements'' []
          [QDomElement ''element'' [(''uuid'', [])] [],
           QDomElement ''element'' [(''uuid'', [])] []],
        QDomElement ''conductors'' [] [QDomElement ''conductor'' [] []]]"
proof -
  have n: "number_int 0 = ''0''"
    by (simp add: number_int_def number.simps digit_def)
  show ?thesis
    using toXml_selection [of example_writers example_selection]
    by (simp add: n example_selection_def example_diagram_def example_objects_def plain_item_def
        example_writers_def item_sections_def xml_section_def createElement_def)
qed


section \<open>Import from XML\<close>

text \<open>
  \<open>QString::toInt\<close>: white space around the number is skipped, a sign may come first,
  the rest must be decimal digits and the value must fit a 32-bit \<open>int\<close>; the result is 0
  when the conversion fails.
\<close>

definition isSpace :: "char \<Rightarrow> bool" where
  "isSpace c \<longleftrightarrow> c \<in> set [CHR '' '', CHR 0x09, CHR 0x0A, CHR 0x0B, CHR 0x0C, CHR 0x0D]"

definition trimmed :: "string \<Rightarrow> string" where
  "trimmed s = rev (dropWhile isSpace (rev (dropWhile isSpace s)))"

definition isDigit :: "char \<Rightarrow> bool" where
  "isDigit c \<longleftrightarrow> c \<in> set ''0123456789''"

definition digitsValue :: "string \<Rightarrow> int" where
  "digitsValue ds = foldl (\<lambda>n c. 10 * n + (of_char c - 48)) 0 ds"

definition toInt :: "string \<Rightarrow> int" where
  "toInt s =
     (let t = trimmed s;
          negative = (t \<noteq> [] \<and> hd t = CHR ''-'');
          ds = (if t \<noteq> [] \<and> (hd t = CHR ''-'' \<or> hd t = CHR ''+'') then tl t else t)
      in if ds = [] \<or> \<not> list_all isDigit ds then 0
         else let v = (if negative then - digitsValue ds else digitsValue ds)
              in if - (2 ^ 31) \<le> v \<and> v < 2 ^ 31 then v else 0)"


text \<open>A \<open>QPointF\<close> is a pair of coordinates; the null point is \<open>(0, 0)\<close>.\<close>

type_synonym QPointF = "real \<times> real"

record DiagramContent =
  m_elements :: "addr list"
  m_conductors_to_move :: "addr list"
  m_text_fields :: "addr set"
  m_images :: "addr set"
  m_shapes :: "addr set"
  m_terminal_strip :: "addr list"
  m_tables :: "addr list"


text \<open>
  What \<open>Diagram::fromXml\<close> calls and is not among the sources at hand is a parameter:
  the \<open>fromXml\<close> methods of the border and title block and of the conductor properties;
  whether a project id names another open project, and the import of an element
  definition from it into the collection of this project; \<open>Element::valideXml\<close> and
  \<open>Conductor::valideXml\<close>; the element factory, which builds an element at a given free
  address and returns its error code, the store and the next free address;
  \<open>Element::fromXml\<close>, which may extend the table of terminal ids; the construction of a
  text, an image and a shape from their XML; the conversion of a string to a uuid; the
  construction of a conductor between two terminals, with its validity;
  \<open>Conductor::fromXml\<close>; the XML elements of the tables (\<open>QETXML::subChild\<close>), the
  construction of a table and its \<open>fromXml\<close>; \<open>TerminalStripItemXml::fromXml\<close>, which is
  given the diagram; the top left corner of the added items and the move of an item.
  \<open>Diagram::snapToGrid\<close> computes in floating point and reads the application's settings
  and the keyboard; where \<open>fromXml\<close> calls it, it is a parameter as well.
\<close>

record ('b, 'p, 'x, 'c) xml_readers =
  titleBlockFromXml :: "QDomNode \<Rightarrow> 'b \<Rightarrow> 'b"
  borderFromXml :: "QDomNode \<Rightarrow> 'b \<Rightarrow> 'b"
  propertiesFromXml :: "QDomNode \<Rightarrow> 'p \<Rightarrow> 'p"
  otherProject :: "int \<Rightarrow> bool"
  importFromProject :: "int \<Rightarrow> string \<Rightarrow> 'c \<Rightarrow> 'c"
  Element_valideXml :: "QDomNode \<Rightarrow> bool"
  ElementFactory_createElement ::
    "'c \<Rightarrow> string \<Rightarrow> bool \<Rightarrow> addr \<Rightarrow> (addr \<Rightarrow> 'x item) \<Rightarrow> int \<times> (addr \<Rightarrow> 'x item) \<times> addr"
  Element_fromXml ::
    "addr \<Rightarrow> QDomNode \<Rightarrow> (int \<rightharpoonup> addr) \<Rightarrow> (addr \<Rightarrow> 'x item)
     \<Rightarrow> bool \<times> (int \<rightharpoonup> addr) \<times> (addr \<Rightarrow> 'x item)"
  newIndependentTextItem :: "QDomNode \<Rightarrow> addr \<Rightarrow> (addr \<Rightarrow> 'x item) \<Rightarrow> (addr \<Rightarrow> 'x item) \<times> addr"
  newDiagramImageItem :: "QDomNode \<Rightarrow> addr \<Rightarrow> (addr \<Rightarrow> 'x item) \<Rightarrow> (addr \<Rightarrow> 'x item) \<times> addr"
  newQetShapeItem :: "QDomNode \<Rightarrow> addr \<Rightarrow> (addr \<Rightarrow> 'x item) \<Rightarrow> (addr \<Rightarrow> 'x item) \<times> addr"
  Conductor_valideXml :: "QDomNode \<Rightarrow> bool"
  QUuid :: "string \<Rightarrow> string"
  newConductor ::
    "addr \<Rightarrow> addr \<Rightarrow> addr \<Rightarrow> (addr \<Rightarrow> 'x item) \<Rightarrow> bool \<times> (addr \<Rightarrow> 'x item) \<times> addr"
  Conductor_fromXml :: "addr \<Rightarrow> QDomNode \<Rightarrow> (addr \<Rightarrow> 'x item) \<Rightarrow> (addr \<Rightarrow> 'x item)"
  tablesXml :: "QDomNode \<Rightarrow> QDomNode list"
  newQetGraphicsTableItem :: "addr \<Rightarrow> (addr \<Rightarrow> 'x item) \<Rightarrow> (addr \<Rightarrow> 'x item) \<times> addr"
  Table_fromXml :: "addr \<Rightarrow> QDomNode \<Rightarrow> (addr \<Rightarrow> 'x item) \<Rightarrow> (addr \<Rightarrow> 'x item)"
  TerminalStripItemXml_fromXml ::
    "QDomNode \<Rightarrow> ('b, 'p, 'x, 'c) diagram \<Rightarrow> addr list \<times> ('b, 'p, 'x, 'c) diagram"
  itemsTopLeft :: "(addr \<Rightarrow> 'x item) \<Rightarrow> addr list \<Rightarrow> QPointF"
  snapToGrid :: "QPointF \<Rightarrow> QPointF"
  movedBy :: "QPointF \<Rightarrow> addr \<Rightarrow> (addr \<Rightarrow> 'x item) \<Rightarrow> (addr \<Rightarrow> 'x item)"


definition findTerminal ::
  "('b, 'p, 'x, 'c) xml_readers \<Rightarrow> nat \<Rightarrow> QDomNode \<Rightarrow> (int \<rightharpoonup> addr) \<Rightarrow> addr list
   \<Rightarrow> (addr \<Rightarrow> 'x item) \<Rightarrow> addr option" where
  "findTerminal R conductor_index f table_adr_id added_elements objs =
     (let str_index = number conductor_index;
          element_index = ''element'' @ str_index;
          terminal_index = ''terminal'' @ str_index
      in if hasAttribute f element_index then
           let element_uuid = QUuid R (attribute f element_index)
           in (case find (\<lambda>element. uuid (objs element) = element_uuid) added_elements of
                 None \<Rightarrow> None
               | Some element \<Rightarrow>
                   let terminal_uuid = QUuid R (attribute f terminal_index)
                   in find (\<lambda>terminal. uuid (objs terminal) = terminal_uuid)
                        (terminals (objs element)))
         else table_adr_id (toInt (attribute f terminal_index)))"

text \<open>The block of \<open>fromXml\<close> that reads the attributes of the diagram.\<close>

definition informationsFromXml ::
  "('b, 'p, 'x, 'c) xml_readers \<Rightarrow> QDomNode \<Rightarrow> ('b, 'p, 'x, 'c) diagram
   \<Rightarrow> ('b, 'p, 'x, 'c) diagram" where
  "informationsFromXml R root_element d =
     d\<lparr>border_and_titleblock :=
         borderFromXml R root_element (titleBlockFromXml R root_element (border_and_titleblock d)),
       defaultConductorProperties :=
         (case childElements ''defaultconductor'' root_element of
            [] \<Rightarrow> defaultConductorProperties d
          | default_conductor_elmt # _ \<Rightarrow>
              propertiesFromXml R default_conductor_elmt (defaultConductorProperties d)),
       m_conductors_autonum_name := attribute root_element ''conductorAutonum'',
       m_freeze_new_elements := (toInt (attribute root_element ''freezeNewElement'') \<noteq> 0),
       m_freeze_new_conductors := (toInt (attribute root_element ''freezeNewConductor'') \<noteq> 0),
       m_elmt_unitfolio_max :=
         folioSequentialsFromXml root_element (m_elmt_unitfolio_max d)
           ''elementunitfolioseq'' ''sequf_'' ''unitfolioseq'' ''elementautonumfoliosequentials'',
       m_elmt_tenfolio_max :=
         folioSequentialsFromXml root_element (m_elmt_tenfolio_max d)
           ''elementtenfolioseq'' ''seqtf_'' ''tenfolioseq'' ''elementautonumfoliosequentials'',
       m_elmt_hundredfolio_max :=
         folioSequentialsFromXml root_element (m_elmt_hundredfolio_max d)
           ''elementhundredfolioseq'' ''seqhf_'' ''hundredfolioseq''
           ''elementautonumfoliosequentials'',
       m_cnd_unitfolio_max :=
         folioSequentialsFromXml root_element (m_cnd_unitfolio_max d)
           ''conductorunitfolioseq'' ''sequf_'' ''unitfolioseq''
           ''conductorautonumfoliosequentials'',
       m_cnd_tenfolio_max :=
         folioSequentialsFromXml root_element (m_cnd_tenfolio_max d)
           ''conductortenfolioseq'' ''seqtf_'' ''tenfolioseq''
           ''conductorautonumfoliosequentials'',
       m_cnd_hundredfolio_max :=
         folioSequentialsFromXml root_element (m_cnd_hundredfolio_max d)
           ''conductorhundredfolioseq'' ''seqhf_'' ''hundredfolioseq''
           ''conductorautonumfoliosequentials''\<rparr>"

text \<open>The block for a paste from another project.\<close>

definition importFromOtherProject ::
  "('b, 'p, 'x, 'c) xml_readers \<Rightarrow> QDomNode \<Rightarrow> ('b, 'p, 'x, 'c) diagram
   \<Rightarrow> ('b, 'p, 'x, 'c) diagram" where
  "importFromOtherProject R root_element d =
     (if hasAttribute root_element ''projectId'' then
        let other_project = toInt (attributeOr root_element ''projectId'' ''-1'')
        in if otherProject R other_project then
             d\<lparr>collection :=
                 fold (\<lambda>element_xml ech.
                         if \<not> Element_valideXml R element_xml then ech
                         else let type_id = attribute element_xml ''type''
                              in if take 8 type_id = ''embed://''
                                 then importFromProject R other_project type_id ech
                                 else ech)
                      (findInDomElement root_element ''elements'' ''element'') (collection d)\<rparr>
           else d
      else d)"

text \<open>
  The bodies of the loops that load the elements, the texts, images and shapes, the
  conductors and the tables. Where a new object is deleted before it was added to the
  diagram, the state is as it was before the object was built.
\<close>

definition loadElement ::
  "('b, 'p, 'x, 'c) xml_readers \<Rightarrow> 'x scene_env \<Rightarrow> QDomNode
   \<Rightarrow> ('b, 'p, 'x, 'c) diagram \<times> addr list \<times> (int \<rightharpoonup> addr)
   \<Rightarrow> ('b, 'p, 'x, 'c) diagram \<times> addr list \<times> (int \<rightharpoonup> addr)" where
  "loadElement R S element_xml st =
     (case st of (d, added_elements, table_adr_id) \<Rightarrow>
        if \<not> Element_valideXml R element_xml then st
        else
          let type_id = attribute element_xml ''type'';
              nvel_elmt = fresh d;
              (state, objs, next_addr) =
                ElementFactory_createElement R (collection d) type_id
                  (take 8 type_id = ''embed://'') nvel_elmt (objects d)
          in if state \<noteq> 0 then st
             else
               let d = addItem S (Some nvel_elmt) (d\<lparr>objects := objs, fresh := next_addr\<rparr>);
                   (loaded, table_adr_id, objs) =
                     Element_fromXml R nvel_elmt element_xml table_adr_id (objects d);
                   d = d\<lparr>objects := objs\<rparr>
               in if \<not> loaded
                  then (removeItem S (Some nvel_elmt) d, added_elements, table_adr_id)
                  else (d, added_elements @ [nvel_elmt], table_adr_id))"

definition loadItem ::
  "(QDomNode \<Rightarrow> addr \<Rightarrow> (addr \<Rightarrow> 'x item) \<Rightarrow> (addr \<Rightarrow> 'x item) \<times> addr) \<Rightarrow> 'x scene_env
   \<Rightarrow> QDomNode \<Rightarrow> ('b, 'p, 'x, 'c) diagram \<times> addr list
   \<Rightarrow> ('b, 'p, 'x, 'c) diagram \<times> addr list" where
  "loadItem new_item S item_xml st =
     (case st of (d, added) \<Rightarrow>
        let item = fresh d;
            (objs, next_addr) = new_item item_xml item (objects d);
            d = addItem S (Some item) (d\<lparr>objects := objs, fresh := next_addr\<rparr>)
        in (d, added @ [item]))"

definition loadConductor ::
  "('b, 'p, 'x, 'c) xml_readers \<Rightarrow> 'x scene_env \<Rightarrow> (int \<rightharpoonup> addr) \<Rightarrow> addr list \<Rightarrow> QDomNode
   \<Rightarrow> ('b, 'p, 'x, 'c) diagram \<times> addr list
   \<Rightarrow> ('b, 'p, 'x, 'c) diagram \<times> addr list" where
  "loadConductor R S table_adr_id added_elements f st =
     (case st of (d, added_conductors) \<Rightarrow>
        if \<not> Conductor_valideXml R f then st
        else
          (case (findTerminal R 1 f table_adr_id added_elements (objects d),
                 findTerminal R 2 f table_adr_id added_elements (objects d)) of
             (Some p1, Some p2) \<Rightarrow>
               if p1 \<noteq> p2 then
                 let c = fresh d;
                     (valid, objs, next_addr) = newConductor R p1 p2 c (objects d)
                 in if valid then
                      let d = addItem S (Some c) (d\<lparr>objects := objs, fresh := next_addr\<rparr>);
                          d = d\<lparr>objects := Conductor_fromXml R c f (objects d)\<rparr>
                      in (d, added_conductors @ [c])
                    else st
               else st
           | _ \<Rightarrow> st))"

definition loadTable ::
  "('b, 'p, 'x, 'c) xml_readers \<Rightarrow> 'x scene_env \<Rightarrow> QDomNode
   \<Rightarrow> ('b, 'p, 'x, 'c) diagram \<times> addr list
   \<Rightarrow> ('b, 'p, 'x, 'c) diagram \<times> addr list" where
  "loadTable R S dom_table st =
     (case st of (d, added_tables) \<Rightarrow>
        let table = fresh d;
            (objs, next_addr) = newQetGraphicsTableItem R table (objects d);
            d = addItem S (Some table) (d\<lparr>objects := objs, fresh := next_addr\<rparr>);
            d = d\<lparr>objects := Table_fromXml R table dom_table (objects d)\<rparr>
        in (d, added_tables @ [table]))"

definition translateItems ::
  "('b, 'p, 'x, 'c) xml_readers \<Rightarrow> QPointF \<Rightarrow> addr list \<Rightarrow> ('b, 'p, 'x, 'c) diagram
   \<Rightarrow> ('b, 'p, 'x, 'c) diagram" where
  "translateItems R position added_items d =
     (if position \<noteq> (0, 0) then
        let point = itemsTopLeft R (objects d) added_items;
            pos = snapToGrid R (fst position - fst point, snd position - snd point)
        in d\<lparr>objects := fold (movedBy R pos) added_items (objects d)\<rparr>
      else d)"

definition itemsFromXml ::
  "('b, 'p, 'x, 'c) xml_readers \<Rightarrow> 'x scene_env \<Rightarrow> QDomNode \<Rightarrow> QPointF
   \<Rightarrow> ('b, 'p, 'x, 'c) diagram \<Rightarrow> ('b, 'p, 'x, 'c) diagram \<times> DiagramContent" where
  "itemsFromXml R S root_element position d =
     (let (d, added_elements, table_adr_id) =
            fold (loadElement R S) (findInDomElement root_element ''elements'' ''element'')
              (d, [], Map.empty);
          (d, added_texts) =
            fold (loadItem (newIndependentTextItem R) S)
              (findInDomElement root_element ''inputs'' ''input'') (d, []);
          (d, added_images) =
            fold (loadItem (newDiagramImageItem R) S)
              (findInDomElement root_element ''images'' ''image'') (d, []);
          (d, added_shapes) =
            fold (loadItem (newQetShapeItem R) S)
              (findInDomElement root_element ''shapes'' ''shape'') (d, []);
          (d, added_conductors) =
            fold (loadConductor R S table_adr_id added_elements)
              (findInDomElement root_element ''conductors'' ''conductor'') (d, []);
          (d, added_tables) = fold (loadTable R S) (tablesXml R root_element) (d, []);
          (added_strips, d) = TerminalStripItemXml_fromXml R root_element d;
          d = translateItems R position
                (added_elements @ added_conductors @ added_shapes @ added_texts
                 @ added_images @ added_tables @ added_strips) d
      in (d, \<lparr>m_elements = added_elements, m_conductors_to_move = added_conductors,
               m_text_fields = set added_texts, m_images = set added_images,
               m_shapes = set added_shapes, m_terminal_strip = added_strips,
               m_tables = added_tables\<rparr>))"

text \<open>
  \<open>fromXml\<close> returns its result, the new state and, where the end of the function is
  reached, the content that \<open>content_ptr\<close> receives. The rectangle of the scene, which
  \<open>adjustSceneRect\<close> updates at the end, is not part of the state.
\<close>

definition fromXml ::
  "('b, 'p, 'x, 'c) xml_readers \<Rightarrow> 'x scene_env \<Rightarrow> QDomNode \<Rightarrow> QPointF \<Rightarrow> bool
   \<Rightarrow> ('b, 'p, 'x, 'c) diagram \<Rightarrow> bool \<times> ('b, 'p, 'x, 'c) diagram \<times> DiagramContent option" where
  "fromXml R S root_element position consider_informations d =
     (if tagName root_element \<noteq> ''diagram'' then (False, d, None)
      else
        let d = (if consider_informations then informationsFromXml R root_element d else d)
        in if childNodes root_element = [] then (True, d, None)
           else
             let (d, content) =
                   itemsFromXml R S root_element position (importFromOtherProject R root_element d)
             in (True, d, Some content))"

text \<open>
  Claim C8. \<open>fromXml\<close> returns false exactly when the tag name of the root is not
  \<open>diagram\<close>, and then the state is the one before the call and no content is returned.
  For a root tagged \<open>diagram\<close> it returns true, whatever happens to the elements and
  conductors inside.
\<close>

theorem fromXml_result:
  "(fst (fromXml R S root_element position consider_informations d) = False
      \<longleftrightarrow> tagName root_element \<noteq> ''diagram'')
   \<and> (tagName root_element \<noteq> ''diagram'' \<longrightarrow>
        fromXml R S root_element position consider_informations d = (False, d, None))
   \<and> (tagName root_element = ''diagram'' \<longrightarrow>
        fst (fromXml R S root_element position consider_informations d) = True)"
  by (simp add: fromXml_def Let_def split_def)


text \<open>
  Readers for the examples. The factory fails for the type \<open>embed://missing\<close>, and an
  element loads when its XML has a uuid. In the example document the first element
  cannot be built, the second is built, added, fails to load and is removed again, and
  the third is loaded.
\<close>

definition example_readers :: "(unit, unit, unit, unit) xml_readers" where
  "example_readers = \<lparr>titleBlockFromXml = (\<lambda>n b. b), borderFromXml = (\<lambda>n b. b),
     propertiesFromXml = (\<lambda>n p. p), otherProject = (\<lambda>i. False),
     importFromProject = (\<lambda>i t c. c),
     Element_valideXml = (\<lambda>n. hasAttribute n ''type''),
     ElementFactory_createElement =
       (\<lambda>c type_id embed a objs.
          (if type_id = ''embed://missing'' then 1 else 0,
           objs(a := plain_item\<lparr>itype := ElementType\<rparr>), a + 1)),
     Element_fromXml =
       (\<lambda>a n t objs. (hasAttribute n ''uuid'', t, objs(a := (objs a)\<lparr>uuid := attribute n ''uuid''\<rparr>))),
     newIndependentTextItem =
       (\<lambda>n a objs. (objs(a := plain_item\<lparr>itype := IndependentTextItemType\<rparr>), a + 1)),
     newDiagramImageItem =
       (\<lambda>n a objs. (objs(a := plain_item\<lparr>itype := DiagramImageItemType\<rparr>), a + 1)),
     newQetShapeItem =
       (\<lambda>n a objs. (objs(a := plain_item\<lparr>itype := QetShapeItemType\<rparr>), a + 1)),
     Conductor_valideXml = (\<lambda>n. True), QUuid = (\<lambda>s. s),
     newConductor =
       (\<lambda>p1 p2 a objs.
          (True, objs(a := plain_item\<lparr>itype := ConductorType, terminal1 := p1, terminal2 := p2\<rparr>),
           a + 1)),
     Conductor_fromXml = (\<lambda>a n objs. objs),
     tablesXml = (\<lambda>n. findInDomElement n ''tables'' ''graphics_table''),
     newQetGraphicsTableItem =
       (\<lambda>a objs. (objs(a := plain_item\<lparr>itype := QetGraphicsTableItemType\<rparr>), a + 1)),
     Table_fromXml = (\<lambda>a n objs. objs),
     TerminalStripItemXml_fromXml = (\<lambda>n d. ([], d)),
     itemsTopLeft = (\<lambda>objs as. (0, 0)), snapToGrid = (\<lambda>p. p),
     movedBy = (\<lambda>p a objs. objs)\<rparr>"

definition example_document :: QDomNode where
  "example_document =
     QDomElement ''diagram'' []
       [QDomElement ''elements'' []
          [QDomElement ''element'' [(''type'', ''embed://missing'')] [],
           QDomElement ''element'' [(''type'', ''embed://import/a.elmt'')] [],
           QDomElement ''element'' [(''type'', ''embed://import/b.elmt''), (''uuid'', ''{b}'')] []]]"


definition frozen_diagram :: "(unit, unit, unit, unit) diagram" where
  "frozen_diagram = example_diagram\<lparr>items := [], m_freeze_new_elements := True,
     m_freeze_new_conductors := True\<rparr>"


lemma toInt_true: "toInt ''true'' = 0"
  by (simp add: toInt_def trimmed_def isSpace_def isDigit_def)

lemma toInt_false: "toInt ''false'' = 0"
  by (simp add: toInt_def trimmed_def isSpace_def isDigit_def)

text \<open>
  Claim C1. \<open>toXml\<close> writes the two freeze flags as \<open>true\<close> or \<open>false\<close>;
  \<open>fromXml\<close> reads them with \<open>toInt\<close>, which gives 0 for both words. A diagram whose
  flags are set is exported and imported again without an error, and both flags are
  unset afterwards.
\<close>

theorem freeze_flags_lost:
  "m_freeze_new_elements frozen_diagram = True
   \<and> m_freeze_new_conductors frozen_diagram = True
   \<and> fst (fromXml example_readers example_scene_env (toXml example_writers True frozen_diagram)
             (0, 0) True frozen_diagram) = True
   \<and> m_freeze_new_elements
        (fst (snd (fromXml example_readers example_scene_env
                     (toXml example_writers True frozen_diagram) (0, 0) True frozen_diagram)))
       = False
   \<and> m_freeze_new_conductors
        (fst (snd (fromXml example_readers example_scene_env
                     (toXml example_writers True frozen_diagram) (0, 0) True frozen_diagram)))
       = False"
proof -
  have doc: "toXml example_writers True frozen_diagram =
      QDomElement ''diagram''
        [(''title'', ''Folio''), (''cols'', ''17''), (''freezeNewElement'', ''true''),
         (''freezeNewConductor'', ''true'')]
        [QDomElement ''defaultconductor'' [(''type'', ''multi'')] []]"
    by (simp add: toXml_def propertiesOfDiagramToXml_def autonumFolioSequentialsToXml_def
        frozen_diagram_def example_diagram_def example_writers_def createElement_def)
  show ?thesis
    unfolding doc
    by (simp add: fromXml_def informationsFromXml_def attribute_def attributeOr_def
        toInt_true split_def Let_def frozen_diagram_def itemsFromXml_def
        importFromOtherProject_def translateItems_def findInDomElement_def hasAttribute_def
        example_readers_def)
qed

lemma informationsFromXml_freeze:
  "attribute root_element ''freezeNewElement'' = ''true''
     \<or> attribute root_element ''freezeNewElement'' = ''false''
   \<Longrightarrow> m_freeze_new_elements (informationsFromXml R root_element d) = False"
  by (auto simp: informationsFromXml_def toInt_true toInt_false)

theorem fromXml_result_witness:
  "tagName example_document = ''diagram''
   \<and> fst (fromXml example_readers example_scene_env example_document (0, 0) True
             example_diagram) = True
   \<and> tagName (createElement ''svg'') \<noteq> ''diagram''
   \<and> fromXml example_readers example_scene_env (createElement ''svg'') (0, 0) True
         example_diagram = (False, example_diagram, None)"
proof -
  have h1: "tagName example_document = ''diagram''" by (simp add: example_document_def)
  have h2: "tagName (createElement ''svg'') \<noteq> ''diagram''" by (simp add: createElement_def)
  from fromXml_result [of example_readers example_scene_env example_document "(0, 0)" True
      example_diagram] h1
  have r1: "fst (fromXml example_readers example_scene_env example_document (0, 0) True
             example_diagram) = True" by blast
  from fromXml_result [of example_readers example_scene_env "createElement ''svg''" "(0, 0)" True
      example_diagram] h2
  have r2: "fromXml example_readers example_scene_env (createElement ''svg'') (0, 0) True
         example_diagram = (False, example_diagram, None)" by blast
  from h1 h2 r1 r2 show ?thesis by blast
qed

lemma example_document_loaded:
  "items (fst (snd (fromXml example_readers example_scene_env example_document (0, 0) True
                      example_diagram))) = [1, 2, 3, 4, 7]"
  by code_simp


end
